theory Spec2Isabelle
  imports Complex_Main "HOL-Library.Log_Nat" "HOL-Library.DAList" "HOL-Library.Sublist"
begin

section \<open>Python values used by the program\<close>

subsection \<open>Exceptions\<close>

text \<open>
  The exceptions that the modelled code can raise, all of them from built-in operations
  (\<^verbatim>\<open>round\<close>, the conversion of an \<^verbatim>\<open>int\<close> to a \<^verbatim>\<open>float\<close>, \<^verbatim>\<open>timedelta\<close>, the addition of
  a \<^verbatim>\<open>timedelta\<close> to a \<^verbatim>\<open>datetime\<close>, dictionary look-up, \<^verbatim>\<open>datetime.fromisoformat\<close>). \<open>IllTyped\<close> is not a Python exception: it marks a JSON
  entry whose fields do not have the types that \<^verbatim>\<open>CardState\<close> declares, which the typed
  record of this theory cannot hold.
\<close>

datatype error = ValueError | OverflowError | KeyError | TypeError | AttributeError | IllTyped

definition ebind :: "error + 'a \<Rightarrow> ('a \<Rightarrow> error + 'b) \<Rightarrow> error + 'b" where
  "ebind m f = (case m of Inl e \<Rightarrow> Inl e | Inr x \<Rightarrow> f x)"

subsection \<open>Binary64 floating point\<close>

text \<open>
  A Python \<^verbatim>\<open>float\<close> is an IEEE 754 binary64 number. A finite one is the rational number it
  denotes; every operation computes the exact rational result and rounds it to the nearest
  binary64 number, ties to even (\<open>round_to_double\<close>). The sign of zero is not represented:
  none of the modelled operations observes it.
\<close>

datatype pyfloat = Finite rat | PosInf | NegInf | NaN

definition floor_log2 :: "rat \<Rightarrow> int" where
  "floor_log2 x =
     (let d = bitlen (fst (quotient_of x)) - bitlen (snd (quotient_of x))
      in if 2 powi d \<le> x then d else d - 1)"

definition round_half_even :: "rat \<Rightarrow> int" where
  "round_half_even x =
     (let f = \<lfloor>x\<rfloor>; r = x - of_int f
      in if r < 1 / 2 then f
         else if 1 / 2 < r then f + 1
         else if even f then f else f + 1)"

definition round_to_double :: "rat \<Rightarrow> pyfloat" where
  "round_to_double x =
     (if x = 0 then Finite 0
      else let e = max (floor_log2 \<bar>x\<bar>) (- 1022) - 52;
               y = of_int (round_half_even (\<bar>x\<bar> / 2 powi e)) * 2 powi e
           in if 2 powi 1024 \<le> y then (if 0 < x then PosInf else NegInf)
              else Finite (sgn x * y))"

text \<open>A decimal literal of the source, such as \<^verbatim>\<open>0.1\<close>, denotes the nearest binary64 number.\<close>

definition float_lit :: "rat \<Rightarrow> pyfloat" where
  "float_lit q = round_to_double q"

fun fneg :: "pyfloat \<Rightarrow> pyfloat" where
  "fneg (Finite a) = Finite (- a)"
| "fneg PosInf = NegInf"
| "fneg NegInf = PosInf"
| "fneg NaN = NaN"

fun fadd :: "pyfloat \<Rightarrow> pyfloat \<Rightarrow> pyfloat" where
  "fadd NaN _ = NaN"
| "fadd _ NaN = NaN"
| "fadd (Finite a) (Finite b) = round_to_double (a + b)"
| "fadd PosInf NegInf = NaN"
| "fadd NegInf PosInf = NaN"
| "fadd PosInf _ = PosInf"
| "fadd NegInf _ = NegInf"
| "fadd (Finite a) PosInf = PosInf"
| "fadd (Finite a) NegInf = NegInf"

definition fsub :: "pyfloat \<Rightarrow> pyfloat \<Rightarrow> pyfloat" where
  "fsub a b = fadd a (fneg b)"

definition inf_of_sign :: "rat \<Rightarrow> pyfloat" where
  "inf_of_sign s = (if s = 0 then NaN else if 0 < s then PosInf else NegInf)"

fun fmul :: "pyfloat \<Rightarrow> pyfloat \<Rightarrow> pyfloat" where
  "fmul NaN _ = NaN"
| "fmul _ NaN = NaN"
| "fmul (Finite a) (Finite b) = round_to_double (a * b)"
| "fmul (Finite a) PosInf = inf_of_sign a"
| "fmul (Finite a) NegInf = inf_of_sign (- a)"
| "fmul PosInf (Finite b) = inf_of_sign b"
| "fmul NegInf (Finite b) = inf_of_sign (- b)"
| "fmul PosInf PosInf = PosInf"
| "fmul NegInf NegInf = PosInf"
| "fmul PosInf NegInf = NegInf"
| "fmul NegInf PosInf = NegInf"

text \<open>The comparisons \<^verbatim>\<open><\<close> and \<^verbatim>\<open><=\<close>; every comparison with NaN is false.\<close>

fun flt :: "pyfloat \<Rightarrow> pyfloat \<Rightarrow> bool" where
  "flt NaN _ = False"
| "flt _ NaN = False"
| "flt (Finite a) (Finite b) = (a < b)"
| "flt _ NegInf = False"
| "flt PosInf _ = False"
| "flt NegInf _ = True"
| "flt (Finite a) PosInf = True"

fun fle :: "pyfloat \<Rightarrow> pyfloat \<Rightarrow> bool" where
  "fle NaN _ = False"
| "fle _ NaN = False"
| "fle (Finite a) (Finite b) = (a \<le> b)"
| "fle NegInf _ = True"
| "fle _ PosInf = True"
| "fle PosInf _ = False"
| "fle (Finite a) NegInf = False"

definition fgt :: "pyfloat \<Rightarrow> pyfloat \<Rightarrow> bool" where
  "fgt a b = flt b a"

definition fge :: "pyfloat \<Rightarrow> pyfloat \<Rightarrow> bool" where
  "fge a b = fle b a"

text \<open>
  \<^verbatim>\<open>max(a, b)\<close> keeps its first argument unless the second is greater, so
  \<^verbatim>\<open>max(1.3, nan)\<close> is \<^verbatim>\<open>1.3\<close>.
\<close>

definition py_max :: "pyfloat \<Rightarrow> pyfloat \<Rightarrow> pyfloat" where
  "py_max a b = (if fgt b a then b else a)"

text \<open>
  \<^verbatim>\<open>round(x)\<close> of a float, without a digit count, is the nearest integer, ties to even; it
  raises \<^verbatim>\<open>ValueError\<close> on NaN and \<^verbatim>\<open>OverflowError\<close> on an infinity.
\<close>

fun py_round :: "pyfloat \<Rightarrow> error + int" where
  "py_round (Finite a) = Inr (round_half_even a)"
| "py_round NaN = Inl ValueError"
| "py_round PosInf = Inl OverflowError"
| "py_round NegInf = Inl OverflowError"

text \<open>
  An \<^verbatim>\<open>int\<close> that meets a \<^verbatim>\<open>float\<close> in an arithmetic operation is converted first,
  correctly rounded; an \<^verbatim>\<open>int\<close> beyond the binary64 range raises \<^verbatim>\<open>OverflowError\<close>.
\<close>

definition int_to_float :: "int \<Rightarrow> error + pyfloat" where
  "int_to_float i =
     (case round_to_double (of_int i) of
        Finite y \<Rightarrow> Inr (Finite y)
      | _ \<Rightarrow> Inl OverflowError)"

definition int_mul_float :: "int \<Rightarrow> pyfloat \<Rightarrow> error + pyfloat" where
  "int_mul_float i x = ebind (int_to_float i) (\<lambda>y. Inr (fmul y x))"

subsection \<open>Timestamps\<close>

text \<open>
  A \<^verbatim>\<open>datetime\<close> is a naive timestamp, counted in microseconds from \<^verbatim>\<open>datetime.min\<close>
  (0001-01-01T00:00:00); the last one, \<^verbatim>\<open>datetime.max\<close>, is 9999-12-31T23:59:59.999999,
  which is 3652059 days less one microsecond after the first. Every call of
  \<^verbatim>\<open>datetime.now()\<close> in the source is an argument of the function that makes the call.
\<close>

type_synonym datetime = int

definition datetime_max :: datetime where
  "datetime_max = 3652059 * 86400000000 - 1"

definition valid_datetime :: "datetime \<Rightarrow> bool" where
  "valid_datetime t = (0 \<le> t \<and> t \<le> datetime_max)"

text \<open>
  \<^verbatim>\<open>timedelta(days=d)\<close>, in microseconds: it raises \<^verbatim>\<open>OverflowError\<close> when the magnitude of
  \<open>d\<close> exceeds 999999999.
\<close>

definition timedelta :: "int \<Rightarrow> error + int" where
  "timedelta d = (if \<bar>d\<bar> \<le> 999999999 then Inr (d * 86400000000) else Inl OverflowError)"

text \<open>
  \<^verbatim>\<open>t + delta\<close> for a \<^verbatim>\<open>datetime\<close> and a \<^verbatim>\<open>timedelta\<close>: it raises \<^verbatim>\<open>OverflowError\<close> when the
  result is not a date of the years 1 to 9999.
\<close>

definition datetime_add :: "datetime \<Rightarrow> int \<Rightarrow> error + datetime" where
  "datetime_add t delta =
     (if valid_datetime (t + delta) then Inr (t + delta) else Inl OverflowError)"

section \<open>Card state and the SM-2 update (spaced_repetition.py)\<close>

datatype Rating = AGAIN | HARD | GOOD | EASY

fun rating_value :: "Rating \<Rightarrow> int" where
  "rating_value AGAIN = 0"
| "rating_value HARD = 2"
| "rating_value GOOD = 3"
| "rating_value EASY = 5"

record CardState =
  card_id :: string
  ease_factor :: pyfloat
  interval :: int
  repetitions :: int
  next_review :: datetime
  last_reviewed :: "datetime option"

text \<open>\<^verbatim>\<open>CardState(card_id=card_id)\<close>: the defaults of the dataclass, \<open>now\<close> being the reading
  of the clock by the default factory of \<^verbatim>\<open>next_review\<close>.\<close>

definition new_CardState :: "string \<Rightarrow> datetime \<Rightarrow> CardState" where
  "new_CardState cid now =
     \<lparr>card_id = cid, ease_factor = float_lit (5 / 2), interval = 0, repetitions = 0,
      next_review = now, last_reviewed = None\<rparr>"

definition is_due :: "CardState \<Rightarrow> datetime \<Rightarrow> bool" where
  "is_due state now = (now \<ge> next_review state)"

text \<open>
  Lines 81 to 83 of \<^verbatim>\<open>sm2_algorithm\<close>:
  \<^verbatim>\<open>new_ease = state.ease_factor + (0.1 - (5 - rating_value) * (0.08 + (5 - rating_value) * 0.02))\<close>
  and \<^verbatim>\<open>new_ease = max(1.3, new_ease)\<close>.
\<close>

definition new_ease :: "pyfloat \<Rightarrow> int \<Rightarrow> error + pyfloat" where
  "new_ease ease rating_val =
     ebind (int_mul_float (5 - rating_val) (float_lit (2 / 100))) (\<lambda>t1.
     ebind (int_mul_float (5 - rating_val) (fadd (float_lit (8 / 100)) t1)) (\<lambda>t2.
     Inr (py_max (float_lit (13 / 10)) (fadd ease (fsub (float_lit (1 / 10)) t2)))))"

text \<open>Lines 85 to 95: the new interval and the new repetition count.\<close>

definition new_schedule :: "CardState \<Rightarrow> Rating \<Rightarrow> error + int \<times> int" where
  "new_schedule state rating =
     (if rating_value rating \<ge> rating_value GOOD then
        ebind (if repetitions state = 0 then Inr 1
               else if repetitions state = 1 then Inr 6
               else ebind (int_mul_float (interval state) (ease_factor state)) py_round)
          (\<lambda>new_interval. Inr (new_interval, repetitions state + 1))
      else Inr (1, 0))"

text \<open>
  Line 97, \<^verbatim>\<open>new_next_review = datetime.now() + timedelta(days=new_interval)\<close>, for the
  clock reading \<open>now\<close>.
\<close>

definition review_date :: "datetime \<Rightarrow> int \<Rightarrow> error + datetime" where
  "review_date now new_interval = ebind (timedelta new_interval) (\<lambda>delta. datetime_add now delta)"

text \<open>
  \<open>now1\<close> is the clock reading of line 97, \<open>now2\<close> the one of line 105.
\<close>

definition sm2_algorithm :: "CardState \<Rightarrow> Rating \<Rightarrow> datetime \<Rightarrow> datetime \<Rightarrow> error + CardState" where
  "sm2_algorithm state rating now1 now2 =
     ebind (new_ease (ease_factor state) (rating_value rating)) (\<lambda>new_ease.
     ebind (new_schedule state rating) (\<lambda>(new_interval, new_repetitions).
     ebind (review_date now1 new_interval) (\<lambda>new_next_review.
     Inr \<lparr>card_id = card_id state,
          ease_factor = new_ease,
          interval = new_interval,
          repetitions = new_repetitions,
          next_review = new_next_review,
          last_reviewed = Some now2\<rparr>)))"

section \<open>The scheduler (spaced_repetition.py)\<close>

text \<open>
  The state store \<^verbatim>\<open>card_states\<close> is a Python dictionary: its keys are distinct and it
  keeps the order of insertion, which \<^verbatim>\<open>items()\<close> follows. Assigning to a present key
  replaces the value in place, assigning to an absent key appends the entry; this is
  \<open>DAList.update\<close>.
\<close>

type_synonym store = "(string, CardState) alist"

text \<open>
  The comprehension of \<^verbatim>\<open>get_due_cards\<close> calls \<^verbatim>\<open>is_due\<close>, hence reads the clock, once
  for each entry: \<open>clock k\<close> is the reading for the entry at position \<open>k\<close>.
\<close>

fun due_entries :: "(nat \<Rightarrow> datetime) \<Rightarrow> nat \<Rightarrow> (string \<times> CardState) list \<Rightarrow> (string \<times> CardState) list" where
  "due_entries clock k [] = []"
| "due_entries clock k ((cid, state) # rest) =
     (if is_due state (clock k) then (cid, state) # due_entries clock (Suc k) rest
      else due_entries clock (Suc k) rest)"

text \<open>\<^verbatim>\<open>list.sort(key=...)\<close> is a stable ascending sort, as \<open>sort_key\<close> is.\<close>

definition get_due_cards :: "store \<Rightarrow> (nat \<Rightarrow> datetime) \<Rightarrow> string list" where
  "get_due_cards card_states clock =
     (let due = due_entries clock 0 (DAList.impl_of card_states);
          due = sort_key (\<lambda>x. next_review (snd x)) due
      in map fst due)"

text \<open>The slice \<^verbatim>\<open>xs[:limit]\<close>; a negative \<open>limit\<close> counts from the end.\<close>

definition py_slice_to :: "'a list \<Rightarrow> int \<Rightarrow> 'a list" where
  "py_slice_to xs limit =
     (if 0 \<le> limit then take (nat limit) xs
      else take (nat (int (length xs) + limit)) xs)"

definition get_new_cards :: "store \<Rightarrow> string list \<Rightarrow> int \<Rightarrow> string list" where
  "get_new_cards card_states all_card_ids limit =
     (let studied = set (map fst (DAList.impl_of card_states));
          new_cards = filter (\<lambda>cid. cid \<notin> studied) all_card_ids
      in py_slice_to new_cards limit)"

text \<open>
  \<^verbatim>\<open>review_card\<close> builds the default state before the look-up (\<open>now0\<close> is the clock
  reading of its default factory), then calls \<^verbatim>\<open>sm2_algorithm\<close> (readings \<open>now1\<close>,
  \<open>now2\<close>). It returns the new state together with the updated store; when
  \<^verbatim>\<open>sm2_algorithm\<close> raises, the store has not been assigned to.
\<close>

definition review_card ::
  "store \<Rightarrow> string \<Rightarrow> Rating \<Rightarrow> datetime \<Rightarrow> datetime \<Rightarrow> datetime \<Rightarrow> error + CardState \<times> store" where
  "review_card card_states cid rating now0 now1 now2 =
     (let current_state =
            (case DAList.lookup card_states cid of
               Some state \<Rightarrow> state
             | None \<Rightarrow> new_CardState cid now0)
      in ebind (sm2_algorithm current_state rating now1 now2) (\<lambda>new_state.
         Inr (new_state, DAList.update cid new_state card_states)))"

definition get_state :: "store \<Rightarrow> string \<Rightarrow> CardState option" where
  "get_state card_states cid = DAList.lookup card_states cid"

text \<open>
  The claim about sequences of reviews speaks of applying \<^verbatim>\<open>sm2_algorithm\<close> once for each
  rating of a list. \<open>apply_ratings\<close> lists the states so produced, each review with its two
  clock readings; the run ends where a call raises.
\<close>

fun apply_ratings :: "CardState \<Rightarrow> (Rating \<times> datetime \<times> datetime) list \<Rightarrow> CardState list" where
  "apply_ratings state [] = []"
| "apply_ratings state ((rating, now1, now2) # rest) =
     (case sm2_algorithm state rating now1 now2 of
        Inl e \<Rightarrow> []
      | Inr state' \<Rightarrow> state' # apply_ratings state' rest)"

section \<open>Persistence (progress.py, CardState.to_dict, CardState.from_dict)\<close>

text \<open>
  The values that \<^verbatim>\<open>json.dump\<close> writes and \<^verbatim>\<open>json.load\<close> returns. A JSON object is a
  Python dictionary, listed in insertion order. The text of the file is not modelled: the
  file holds the document that was dumped, and loading it returns that document.
\<close>

datatype json =
    JNull
  | JBool bool
  | JInt int
  | JFloat pyfloat
  | JStr string
  | JList "json list"
  | JObj "(string \<times> json) list"

text \<open>Truth value of a loaded JSON value, as \<^verbatim>\<open>if data.get("last_reviewed")\<close> tests it.\<close>

fun truthy :: "json \<Rightarrow> bool" where
  "truthy JNull = False"
| "truthy (JBool b) = b"
| "truthy (JInt i) = (i \<noteq> 0)"
| "truthy (JFloat x) = (x \<noteq> Finite 0)"
| "truthy (JStr s) = (s \<noteq> [])"
| "truthy (JList xs) = (xs \<noteq> [])"
| "truthy (JObj kvs) = (kvs \<noteq> [])"

text \<open>
  \<^verbatim>\<open>datetime.isoformat\<close> and \<^verbatim>\<open>datetime.fromisoformat\<close> belong to the Python library;
  they are the parameters \<open>isoformat\<close> and \<open>fromisoformat\<close> of the functions below.
  \<^verbatim>\<open>fromisoformat\<close> raises \<^verbatim>\<open>TypeError\<close> when its argument is not a string.
\<close>

definition to_dict :: "(datetime \<Rightarrow> string) \<Rightarrow> CardState \<Rightarrow> (string \<times> json) list" where
  "to_dict isoformat state =
     [(''card_id'', JStr (card_id state)),
      (''ease_factor'', JFloat (ease_factor state)),
      (''interval'', JInt (interval state)),
      (''repetitions'', JInt (repetitions state)),
      (''next_review'', JStr (isoformat (next_review state))),
      (''last_reviewed'',
         (case last_reviewed state of Some t \<Rightarrow> JStr (isoformat t) | None \<Rightarrow> JNull))]"

definition dict_item :: "(string \<times> json) list \<Rightarrow> string \<Rightarrow> error + json" where
  "dict_item d k = (case map_of d k of None \<Rightarrow> Inl KeyError | Some v \<Rightarrow> Inr v)"

definition parse_iso :: "(string \<Rightarrow> error + datetime) \<Rightarrow> json \<Rightarrow> error + datetime" where
  "parse_iso fromisoformat v = (case v of JStr s \<Rightarrow> fromisoformat s | _ \<Rightarrow> Inl TypeError)"

text \<open>
  The dataclass does not check its fields. A value that does not have the declared type
  of its field cannot be held in \<open>CardState\<close>; the model reports it as \<open>IllTyped\<close>, after
  everything that can raise in \<^verbatim>\<open>from_dict\<close> has been evaluated.
\<close>

definition as_str :: "json \<Rightarrow> error + string" where
  "as_str v = (case v of JStr s \<Rightarrow> Inr s | _ \<Rightarrow> Inl IllTyped)"

definition as_float :: "json \<Rightarrow> error + pyfloat" where
  "as_float v = (case v of JFloat x \<Rightarrow> Inr x | _ \<Rightarrow> Inl IllTyped)"

definition as_int :: "json \<Rightarrow> error + int" where
  "as_int v = (case v of JInt i \<Rightarrow> Inr i | _ \<Rightarrow> Inl IllTyped)"

definition from_dict :: "(string \<Rightarrow> error + datetime) \<Rightarrow> (string \<times> json) list \<Rightarrow> error + CardState" where
  "from_dict fromisoformat data =
     ebind (dict_item data ''card_id'') (\<lambda>v_card_id.
     ebind (dict_item data ''ease_factor'') (\<lambda>v_ease_factor.
     ebind (dict_item data ''interval'') (\<lambda>v_interval.
     ebind (dict_item data ''repetitions'') (\<lambda>v_repetitions.
     ebind (dict_item data ''next_review'') (\<lambda>v_next_review.
     ebind (parse_iso fromisoformat v_next_review) (\<lambda>t_next_review.
     ebind (case map_of data ''last_reviewed'' of
              None \<Rightarrow> Inr None
            | Some v \<Rightarrow>
                if truthy v then ebind (parse_iso fromisoformat v) (\<lambda>t. Inr (Some t))
                else Inr None) (\<lambda>t_last_reviewed.
     ebind (as_str v_card_id) (\<lambda>c.
     ebind (as_float v_ease_factor) (\<lambda>e.
     ebind (as_int v_interval) (\<lambda>i.
     ebind (as_int v_repetitions) (\<lambda>r.
     Inr \<lparr>card_id = c, ease_factor = e, interval = i, repetitions = r,
          next_review = t_next_review, last_reviewed = t_last_reviewed\<rparr>)))))))))))"

text \<open>
  \<^verbatim>\<open>ProgressManager.save\<close>: the result is the document that ends up in the progress file
  (written to a temporary file, which is then renamed). \<open>now\<close> is the clock reading for
  \<^verbatim>\<open>last_saved\<close>.
\<close>

definition save :: "store \<Rightarrow> (datetime \<Rightarrow> string) \<Rightarrow> datetime \<Rightarrow> json" where
  "save card_states isoformat now =
     (let cards =
            foldl (\<lambda>cards (cid, state).
                     AList.update cid (JObj (AList.delete ''card_id'' (to_dict isoformat state))) cards)
              [] (DAList.impl_of card_states)
      in JObj [(''version'', JInt 1),
               (''last_saved'', JStr (isoformat now)),
               (''cards'', JObj cards)])"

text \<open>
  What \<^verbatim>\<open>ProgressManager.load\<close> finds at the path: no file, a file that cannot be read or
  parsed (\<^verbatim>\<open>IOError\<close>, \<^verbatim>\<open>JSONDecodeError\<close>), or a JSON document.
\<close>

datatype progress_file = NoFile | Unreadable | Document json

text \<open>
  The loop of \<^verbatim>\<open>load\<close>. \<^verbatim>\<open>state_data["card_id"] = card_id\<close> raises \<^verbatim>\<open>TypeError\<close> when the
  entry is not an object; only \<^verbatim>\<open>KeyError\<close> and \<^verbatim>\<open>ValueError\<close> are caught and skip the entry.
\<close>

fun load_entries ::
  "(string \<Rightarrow> error + datetime) \<Rightarrow> (string \<times> json) list \<Rightarrow> store \<Rightarrow> error + store" where
  "load_entries fromisoformat [] card_states = Inr card_states"
| "load_entries fromisoformat ((cid, state_data) # rest) card_states =
     (case state_data of
        JObj d \<Rightarrow>
          (case from_dict fromisoformat (AList.update ''card_id'' (JStr cid) d) of
             Inr state \<Rightarrow> load_entries fromisoformat rest (DAList.update cid state card_states)
           | Inl e \<Rightarrow>
               if e = KeyError \<or> e = ValueError then load_entries fromisoformat rest card_states
               else Inl e)
      | _ \<Rightarrow> Inl TypeError)"

definition load :: "progress_file \<Rightarrow> (string \<Rightarrow> error + datetime) \<Rightarrow> error + store" where
  "load file fromisoformat =
     (case file of
        NoFile \<Rightarrow> Inr DAList.empty
      | Unreadable \<Rightarrow> Inr DAList.empty
      | Document data \<Rightarrow>
          (case data of
             JObj kvs \<Rightarrow>
               (case map_of kvs ''cards'' of
                  None \<Rightarrow> Inr DAList.empty
                | Some (JObj cards) \<Rightarrow> load_entries fromisoformat cards DAList.empty
                | Some _ \<Rightarrow> Inl AttributeError)
           | _ \<Rightarrow> Inl AttributeError))"

text \<open>The timestamps that a card state holds, for stating that they survive ISO formatting.\<close>

definition timestamps :: "CardState \<Rightarrow> datetime list" where
  "timestamps state =
     next_review state # (case last_reviewed state of None \<Rightarrow> [] | Some t \<Rightarrow> [t])"

text \<open>
  For the examples: \<^verbatim>\<open>isoformat\<close> and \<^verbatim>\<open>fromisoformat\<close> on the two instants that the
  examples use, 0 and 1 microsecond after \<^verbatim>\<open>datetime.min\<close>. No string is given for any
  other instant, and no other string is parsed.
\<close>

definition example_isoformat :: "datetime \<Rightarrow> string" where
  "example_isoformat t =
     (if t = 0 then ''0001-01-01T00:00:00''
      else if t = 1 then ''0001-01-01T00:00:00.000001''
      else [])"

definition example_fromisoformat :: "string \<Rightarrow> error + datetime" where
  "example_fromisoformat s =
     (if s = ''0001-01-01T00:00:00'' then Inr 0
      else if s = ''0001-01-01T00:00:00.000001'' then Inr 1
      else Inl ValueError)"

section \<open>The catalog and the study session (data.py, app.py)\<close>

datatype Tier = TIER_1 | TIER_2 | TIER_3 | CDN | CLOUD | IXP

text \<open>A catalog entry; the display fields other than the name are left out.\<close>

record Network =
  asn :: int
  name :: string
  tier :: Tier

definition NETWORKS :: "Network list" where
  "NETWORKS =
    [\<lparr>asn = 3356, name = ''Lumen Technologies'', tier = TIER_1\<rparr>,
     \<lparr>asn = 174, name = ''Cogent Communications'', tier = TIER_1\<rparr>,
     \<lparr>asn = 2914, name = ''NTT Communications'', tier = TIER_1\<rparr>,
     \<lparr>asn = 1299, name = ''Arelion (formerly Telia Carrier)'', tier = TIER_1\<rparr>,
     \<lparr>asn = 3257, name = ''GTT Communications'', tier = TIER_1\<rparr>,
     \<lparr>asn = 6762, name = ''Telecom Italia Sparkle'', tier = TIER_1\<rparr>,
     \<lparr>asn = 6453, name = ''TATA Communications'', tier = TIER_1\<rparr>,
     \<lparr>asn = 701, name = ''Verizon Business'', tier = TIER_1\<rparr>,
     \<lparr>asn = 7018, name = ''AT&T'', tier = TIER_1\<rparr>,
     \<lparr>asn = 3491, name = ''PCCW Global'', tier = TIER_1\<rparr>,
     \<lparr>asn = 5511, name = ''Orange S.A.'', tier = TIER_1\<rparr>,
     \<lparr>asn = 6830, name = ''Liberty Global'', tier = TIER_1\<rparr>,
     \<lparr>asn = 1239, name = ''Sprint (T-Mobile)'', tier = TIER_1\<rparr>,
     \<lparr>asn = 12956, name = ''Telefonica'', tier = TIER_1\<rparr>,
     \<lparr>asn = 6939, name = ''Hurricane Electric'', tier = TIER_2\<rparr>,
     \<lparr>asn = 7922, name = ''Comcast'', tier = TIER_2\<rparr>,
     \<lparr>asn = 4134, name = ''China Telecom'', tier = TIER_2\<rparr>,
     \<lparr>asn = 4837, name = ''China Unicom'', tier = TIER_2\<rparr>,
     \<lparr>asn = 9002, name = ''RETN'', tier = TIER_2\<rparr>,
     \<lparr>asn = 3320, name = ''Deutsche Telekom'', tier = TIER_2\<rparr>,
     \<lparr>asn = 2516, name = ''KDDI Corporation'', tier = TIER_2\<rparr>,
     \<lparr>asn = 4766, name = ''Korea Telecom'', tier = TIER_2\<rparr>,
     \<lparr>asn = 9498, name = ''Bharti Airtel'', tier = TIER_2\<rparr>,
     \<lparr>asn = 4323, name = ''TW Telecom (Lumen)'', tier = TIER_2\<rparr>,
     \<lparr>asn = 7843, name = ''Charter Communications'', tier = TIER_3\<rparr>,
     \<lparr>asn = 22773, name = ''Cox Communications'', tier = TIER_3\<rparr>,
     \<lparr>asn = 5650, name = ''Frontier Communications'', tier = TIER_3\<rparr>,
     \<lparr>asn = 20115, name = ''Charter Communications'', tier = TIER_3\<rparr>,
     \<lparr>asn = 11351, name = ''Road Runner (Spectrum)'', tier = TIER_3\<rparr>,
     \<lparr>asn = 11426, name = ''Verizon FiOS'', tier = TIER_3\<rparr>,
     \<lparr>asn = 13335, name = ''Cloudflare'', tier = CDN\<rparr>,
     \<lparr>asn = 20940, name = ''Akamai Technologies'', tier = CDN\<rparr>,
     \<lparr>asn = 54113, name = ''Fastly'', tier = CDN\<rparr>,
     \<lparr>asn = 15133, name = ''Edgecast (Edgio)'', tier = CDN\<rparr>,
     \<lparr>asn = 22822, name = ''Limelight Networks (Edgio)'', tier = CDN\<rparr>,
     \<lparr>asn = 2906, name = ''Netflix'', tier = CDN\<rparr>,
     \<lparr>asn = 46489, name = ''Twitch'', tier = CDN\<rparr>,
     \<lparr>asn = 16509, name = ''Amazon Web Services'', tier = CLOUD\<rparr>,
     \<lparr>asn = 14618, name = ''Amazon.com'', tier = CLOUD\<rparr>,
     \<lparr>asn = 15169, name = ''Google'', tier = CLOUD\<rparr>,
     \<lparr>asn = 8075, name = ''Microsoft Azure'', tier = CLOUD\<rparr>,
     \<lparr>asn = 36351, name = ''IBM Cloud (SoftLayer)'', tier = CLOUD\<rparr>,
     \<lparr>asn = 45102, name = ''Alibaba Cloud'', tier = CLOUD\<rparr>,
     \<lparr>asn = 13414, name = ''Twitter (X)'', tier = CLOUD\<rparr>,
     \<lparr>asn = 32934, name = ''Meta (Facebook)'', tier = CLOUD\<rparr>,
     \<lparr>asn = 714, name = ''Apple'', tier = CLOUD\<rparr>,
     \<lparr>asn = 396982, name = ''Google Cloud'', tier = CLOUD\<rparr>,
     \<lparr>asn = 19679, name = ''Dropbox'', tier = CLOUD\<rparr>,
     \<lparr>asn = 6695, name = ''DE-CIX Frankfurt'', tier = IXP\<rparr>,
     \<lparr>asn = 1200, name = ''AMS-IX'', tier = IXP\<rparr>,
     \<lparr>asn = 24115, name = ''LINX'', tier = IXP\<rparr>,
     \<lparr>asn = 8674, name = ''Netnod'', tier = IXP\<rparr>,
     \<lparr>asn = 2914, name = ''Japan Network Access Point (JPNAP)'', tier = IXP\<rparr>,
     \<lparr>asn = 24940, name = ''Hetzner'', tier = CLOUD\<rparr>,
     \<lparr>asn = 13238, name = ''Yandex'', tier = CLOUD\<rparr>,
     \<lparr>asn = 14061, name = ''DigitalOcean'', tier = CLOUD\<rparr>,
     \<lparr>asn = 63949, name = ''Linode (Akamai)'', tier = CLOUD\<rparr>,
     \<lparr>asn = 20473, name = ''Vultr'', tier = CLOUD\<rparr>,
     \<lparr>asn = 132203, name = ''Tencent Cloud'', tier = CLOUD\<rparr>,
     \<lparr>asn = 398324, name = ''Starlink'', tier = TIER_3\<rparr>]"

text \<open>\<^verbatim>\<open>str(n)\<close> of an integer: its decimal digits, with a sign when negative.\<close>

fun str_nat :: "nat \<Rightarrow> string" where
  "str_nat n =
     (if n < 10 then [''0123456789'' ! n]
      else str_nat (n div 10) @ [''0123456789'' ! (n mod 10)])"

definition str_int :: "int \<Rightarrow> string" where
  "str_int i = (if i < 0 then CHR ''-'' # str_nat (nat (- i)) else str_nat (nat i))"

text \<open>
  \<^verbatim>\<open>StudyScreen._load_study_session\<close>: the value assigned to \<^verbatim>\<open>cards_to_study\<close>, for the
  catalog \<open>networks\<close> (the program passes \<open>NETWORKS\<close>).
\<close>

definition load_study_session :: "store \<Rightarrow> (nat \<Rightarrow> datetime) \<Rightarrow> Network list \<Rightarrow> Network list" where
  "load_study_session card_states clock networks =
     (let due_ids = get_due_cards card_states clock;
          due_networks = filter (\<lambda>n. str_int (asn n) \<in> set due_ids) networks;
          all_ids = map (\<lambda>n. str_int (asn n)) networks;
          new_ids = get_new_cards card_states all_ids 10;
          new_networks = filter (\<lambda>n. str_int (asn n) \<in> set new_ids) networks
      in due_networks @ new_networks)"


section \<open>Properties of the binary64 model\<close>

subsection \<open>Rounding\<close>

lemma floor_log2_bounds:
  assumes "0 < x"
  shows "2 powi (floor_log2 x) \<le> x \<and> x < 2 powi (floor_log2 x + 1)"
proof -
  obtain p q where pq: "quotient_of x = (p, q)" by (cases "quotient_of x")
  have q: "0 < q" using pq by (rule quotient_of_denom_pos)
  have x: "x = of_int p / of_int q" using pq by (rule quotient_of_div)
  have p: "0 < p" using assms q x by (simp add: zero_less_divide_iff)
  define a where "a = bitlen p"
  define b where "b = bitlen q"
  have a1: "1 \<le> a" using p by (simp add: a_def bitlen_alt_def) 
  have b1: "1 \<le> b" using q by (simp add: b_def bitlen_alt_def)
  have pb: "2 ^ nat (a - 1) \<le> p" "p < 2 ^ nat a"
    using bitlen_bounds[OF p] by (simp_all add: a_def)
  have qb: "2 ^ nat (b - 1) \<le> q" "q < 2 ^ nat b"
    using bitlen_bounds[OF q] by (simp_all add: b_def)
  have e1: "(2::rat) powi (a - 1) = of_int (2 ^ nat (a - 1))"
    using a1 by (simp add: power_int_def)
  have e2: "(2::rat) powi a = of_int (2 ^ nat a)"
    using a1 by (simp add: power_int_def)
  have e3: "(2::rat) powi (b - 1) = of_int (2 ^ nat (b - 1))"
    using b1 by (simp add: power_int_def)
  have e4: "(2::rat) powi b = of_int (2 ^ nat b)"
    using b1 by (simp add: power_int_def)
  have pr: "(2::rat) powi (a - 1) \<le> of_int p" "of_int p < (2::rat) powi a"
    unfolding e1 e2 using pb by (simp_all only: of_int_le_iff of_int_less_iff)
  have qr: "(2::rat) powi (b - 1) \<le> of_int q" "of_int q < (2::rat) powi b"
    unfolding e3 e4 using qb by (simp_all only: of_int_le_iff of_int_less_iff)
  have "(2::rat) powi (a - 1) / 2 powi b < of_int p / of_int q"
    by (rule frac_less2) (use pr qr q in simp_all)
  then have lo: "(2::rat) powi (a - b - 1) < x"
    by (simp add: x power_int_diff)
  have "of_int p / of_int q < (2::rat) powi a / 2 powi (b - 1)"
    by (rule frac_less) (use pr qr p in simp_all)
  then have hi: "x < (2::rat) powi (a - b + 1)"
    by (simp add: x power_int_diff power_int_add)
  show ?thesis
    using lo hi by (auto simp: floor_log2_def pq a_def b_def Let_def not_le)
qed

lemma powi2_mono: "m \<le> n \<Longrightarrow> (2::rat) powi m \<le> 2 powi n"
  by (rule power_int_increasing) simp_all

lemma floor_log2_unique:
  assumes "0 < x" and "2 powi k \<le> x" and "x < 2 powi (k + 1)"
  shows "floor_log2 x = k"
proof (rule ccontr)
  assume ne: "floor_log2 x \<noteq> k"
  note b = floor_log2_bounds[OF assms(1)]
  show False
  proof (cases "floor_log2 x < k")
    case True
    then have "(2::rat) powi (floor_log2 x + 1) \<le> 2 powi k" by (intro powi2_mono) simp
    with b assms show False by simp
  next
    case False
    with ne have "(2::rat) powi (k + 1) \<le> 2 powi (floor_log2 x)" by (intro powi2_mono) simp
    with b assms show False by simp
  qed
qed


lemma round_half_even_ge:
  assumes "of_int n \<le> z"
  shows "n \<le> round_half_even z"
proof -
  have "n \<le> \<lfloor>z\<rfloor>" using assms by (simp add: le_floor_iff)
  then show ?thesis by (simp add: round_half_even_def Let_def)
qed

lemma round_half_even_le:
  assumes "z < of_int n"
  shows "round_half_even z \<le> n"
proof -
  have "\<lfloor>z\<rfloor> < n" using assms by (simp add: floor_less_iff)
  then show ?thesis by (simp add: round_half_even_def Let_def)
qed

lemma round_to_double_minus: "round_to_double (- x) = fneg (round_to_double x)"
  by (simp add: round_to_double_def Let_def)

lemma round_half_even_nearest:
  assumes "\<bar>z - of_int m\<bar> < 1 / 2"
  shows "round_half_even z = m"
proof -
  have lo: "of_int m - 1 / 2 < z" and hi: "z < of_int m + 1 / 2"
    using assms by linarith+
  show ?thesis
  proof (cases "of_int m \<le> z")
    case True
    have "z < of_int (m + 1)" using hi by simp
    with True have "\<lfloor>z\<rfloor> = m" by (simp add: floor_unique)
    then show ?thesis using hi by (simp add: round_half_even_def Let_def)
  next
    case False
    have "of_int (m - 1) \<le> z" using lo by simp
    moreover have "z < of_int (m - 1) + 1" using False by simp
    ultimately have "\<lfloor>z\<rfloor> = m - 1" by (rule floor_unique)
    then show ?thesis using lo by (simp add: round_half_even_def Let_def)
  qed
qed

lemma round_to_double_normal:
  assumes lo: "2 powi k \<le> x" and hi: "x < 2 powi (k + 1)"
    and k: "- 1022 \<le> k" "k \<le> 1022"
  shows "round_to_double x =
    Finite (of_int (round_half_even (x / 2 powi (k - 52))) * 2 powi (k - 52))"
proof -
  have pos: "0 < x"
    by (rule less_le_trans[OF _ lo]) simp
  have fl: "floor_log2 \<bar>x\<bar> = k"
    using pos lo hi by (simp add: floor_log2_unique)
  define z where "z = x / 2 powi (k - 52)"
  define y where "y = (of_int (round_half_even z) :: rat) * 2 powi (k - 52)"
  have "z < 2 powi (k + 1) / 2 powi (k - 52)"
    unfolding z_def using hi by (simp add: divide_strict_right_mono)
  also have "\<dots> = of_int (2 ^ 53)"
    by (simp add: power_int_diff[symmetric])
  finally have "round_half_even z \<le> 2 ^ 53"
    by (rule round_half_even_le)
  then have "(of_int (round_half_even z) :: rat) \<le> of_int (2 ^ 53)"
    by (simp only: of_int_le_iff)
  then have "y \<le> (of_int (2 ^ 53) :: rat) * 2 powi (k - 52)"
    unfolding y_def by (rule mult_right_mono) simp
  also have "\<dots> = 2 powi (53 + (k - 52))"
    by (subst power_int_add) simp_all
  also have "\<dots> < 2 powi 1024"
    by (rule power_int_strict_increasing) (use k in simp_all)
  finally have "\<not> 2 powi 1024 \<le> y"
    by (simp only: not_le)
  moreover have "max (floor_log2 \<bar>x\<bar>) (- 1022) - 52 = k - 52"
    using k fl by simp
  ultimately show ?thesis
    unfolding round_to_double_def Let_def y_def z_def using pos by simp
qed

lemma round_to_double_eqI:
  assumes "2 powi k \<le> x" and "x < 2 powi (k + 1)" and "- 1022 \<le> k" and "k \<le> 1022"
    and "\<bar>x / 2 powi (k - 52) - of_int m\<bar> < 1 / 2"
    and "y = of_int m * 2 powi (k - 52)"
  shows "round_to_double x = Finite y"
  using assms by (simp add: round_to_double_normal round_half_even_nearest)

lemma round_to_double_ge_1:
  assumes "1 \<le> x"
  shows "round_to_double x = PosInf \<or> (\<exists>y. round_to_double x = Finite y \<and> 1 \<le> y)"
proof -
  have pos: "0 < x" using assms by simp
  define k where "k = floor_log2 x"
  have b: "2 powi k \<le> x" "x < 2 powi (k + 1)"
    using floor_log2_bounds[OF pos] by (simp_all add: k_def)
  have k0: "0 \<le> k"
  proof (rule ccontr)
    assume "\<not> 0 \<le> k"
    then have "(2::rat) powi (k + 1) \<le> 2 powi 0" by (intro powi2_mono) simp
    with b assms show False by simp
  qed
  define z where "z = x / 2 powi (k - 52)"
  define y where "y = (of_int (round_half_even z) :: rat) * 2 powi (k - 52)"
  have "(of_int (2 ^ 52) :: rat) = 2 powi k / 2 powi (k - 52)"
    by (simp add: power_int_diff[symmetric])
  also have "\<dots> \<le> z"
    unfolding z_def using b by (simp add: divide_right_mono)
  finally have "2 ^ 52 \<le> round_half_even z"
    by (rule round_half_even_ge)
  then have m: "(of_int (2 ^ 52) :: rat) \<le> of_int (round_half_even z)"
    by (simp only: of_int_le_iff)
  have "(1::rat) \<le> 2 powi k"
    using k0 by simp
  also have "\<dots> = 2 powi (52 + (k - 52))"
    by simp
  also have "\<dots> = of_int (2 ^ 52) * 2 powi (k - 52)"
    by (subst power_int_add) simp_all
  also have "\<dots> \<le> y"
    unfolding y_def using m by (rule mult_right_mono) simp
  finally have y1: "1 \<le> y" .
  have e: "max (floor_log2 \<bar>x\<bar>) (- 1022) - 52 = k - 52"
    using pos k0 by (simp add: k_def)
  have "round_to_double x = (if 2 powi 1024 \<le> y then PosInf else Finite y)"
    unfolding round_to_double_def Let_def e y_def z_def using pos by simp
  with y1 show ?thesis by simp
qed

subsection \<open>Literals and small integers\<close>

lemma float_lit_13_10: "float_lit (13 / 10) = Finite (5854679515581645 / 4503599627370496)"
  unfolding float_lit_def
  by (rule round_to_double_eqI[where k = 0 and m = 5854679515581645]) (simp_all add: power_int_minus)

lemma float_lit_5_2: "float_lit (5 / 2) = Finite (5 / 2)"
  unfolding float_lit_def
  by (rule round_to_double_eqI[where k = 1 and m = 5629499534213120]) (simp_all add: power_int_minus)

lemma round_to_double_0: "round_to_double 0 = Finite 0"
  by (simp add: round_to_double_def)

lemma round_to_double_2: "round_to_double 2 = Finite 2"
  by (rule round_to_double_eqI[where k = 1 and m = 4503599627370496]) (simp_all add: power_int_minus)

lemma round_to_double_3: "round_to_double 3 = Finite 3"
  by (rule round_to_double_eqI[where k = 1 and m = 6755399441055744]) (simp_all add: power_int_minus)

lemma round_to_double_5: "round_to_double 5 = Finite 5"
  by (rule round_to_double_eqI[where k = 2 and m = 5629499534213120]) (simp_all add: power_int_minus)

lemma int_to_float_rating:
  "int_to_float (5 - rating_value r) = Inr (Finite (of_int (5 - rating_value r)))"
  by (cases r)
    (simp_all add: int_to_float_def round_to_double_0 round_to_double_2 round_to_double_3
      round_to_double_5)

lemma new_ease_rating:
  "new_ease e (rating_value r) =
     Inr (py_max (float_lit (13 / 10))
           (fadd e (fsub (float_lit (1 / 10))
              (fmul (Finite (of_int (5 - rating_value r)))
                 (fadd (float_lit (8 / 100))
                    (fmul (Finite (of_int (5 - rating_value r))) (float_lit (2 / 100))))))))"
  by (simp add: new_ease_def int_mul_float_def int_to_float_rating ebind_def)

subsection \<open>Order\<close>

lemma fge_not_flt: "fge a b \<Longrightarrow> \<not> flt a b"
  by (cases a; cases b) (simp_all add: fge_def)

lemma py_max_ge: "fge (py_max (Finite c) x) (Finite c)"
  by (cases x) (simp_all add: py_max_def fge_def fgt_def)

lemma py_max_floor: "fge (py_max (float_lit (13 / 10)) x) (float_lit (13 / 10))"
  unfolding float_lit_13_10 by (rule py_max_ge)

subsection \<open>Worked values\<close>

text \<open>
  The ease update of a fresh card rated \<^verbatim>\<open>GOOD\<close>, step by step: the result is the binary64
  number that the literal \<^verbatim>\<open>2.36\<close> denotes.
\<close>

lemma floor_rat_numeral_divide: "\<lfloor>numeral a / numeral b :: rat\<rfloor> = numeral a div numeral b"
  by (metis floor_divide_of_int_eq of_int_numeral)

lemmas round_eval = round_half_even_def Let_def floor_rat_numeral_divide power_int_minus

lemma float_lit_2_100: "float_lit (2 / 100) = Finite (5764607523034235 / 288230376151711744)"
  unfolding float_lit_def
  by (subst round_to_double_normal[where k = "- 6"]) (simp_all add: round_eval)

lemma float_lit_8_100: "float_lit (8 / 100) = Finite (5764607523034235 / 72057594037927936)"
  unfolding float_lit_def
  by (subst round_to_double_normal[where k = "- 4"]) (simp_all add: round_eval)

lemma float_lit_1_10: "float_lit (1 / 10) = Finite (3602879701896397 / 36028797018963968)"
  unfolding float_lit_def
  by (subst round_to_double_normal[where k = "- 4"]) (simp_all add: round_eval)

lemma float_lit_236_100: "float_lit (236 / 100) = Finite (5314247560297185 / 2251799813685248)"
  unfolding float_lit_def
  by (subst round_to_double_normal[where k = 1]) (simp_all add: round_eval)

lemma new_ease_good_fresh:
  "new_ease (float_lit (5 / 2)) (rating_value GOOD) = Inr (float_lit (236 / 100))"
proof -
  have t1: "fmul (Finite 2) (float_lit (2 / 100)) = Finite (5764607523034235 / 144115188075855872)"
    unfolding float_lit_2_100 fmul.simps
    by (subst round_to_double_normal[where k = "- 5"]) (simp_all add: round_eval)
  have t2: "fadd (float_lit (8 / 100)) (Finite (5764607523034235 / 144115188075855872))
      = Finite (1080863910568919 / 9007199254740992)"
    unfolding float_lit_8_100 fadd.simps
    by (subst round_to_double_normal[where k = "- 4"]) (simp_all add: round_eval)
  have t3: "fmul (Finite 2) (Finite (1080863910568919 / 9007199254740992))
      = Finite (1080863910568919 / 4503599627370496)"
    unfolding fmul.simps
    by (subst round_to_double_normal[where k = "- 3"]) (simp_all add: round_eval)
  have "round_to_double (- (5044031582654955 / 36028797018963968))
      = fneg (round_to_double (5044031582654955 / 36028797018963968))"
    by (rule round_to_double_minus)
  also have "round_to_double (5044031582654955 / 36028797018963968)
      = Finite (5044031582654955 / 36028797018963968)"
    by (subst round_to_double_normal[where k = "- 3"]) (simp_all add: round_eval)
  finally have t4: "fsub (float_lit (1 / 10)) (Finite (1080863910568919 / 4503599627370496))
      = Finite (- (5044031582654955 / 36028797018963968))"
    unfolding float_lit_1_10 fsub_def by simp
  have t5: "fadd (Finite (5 / 2)) (Finite (- (5044031582654955 / 36028797018963968)))
      = Finite (5314247560297185 / 2251799813685248)"
    unfolding fadd.simps
    by (subst round_to_double_normal[where k = 1]) (simp_all add: round_eval)
  have v: "Finite (of_int (5 - rating_value GOOD)) = Finite 2"
    by simp
  show ?thesis
    unfolding new_ease_rating v t1 t2 t3 t4 float_lit_5_2 t5 float_lit_13_10 float_lit_236_100
    by (simp add: py_max_def fgt_def)
qed

section \<open>The SM-2 update\<close>

lemma int_mul_float_ge_1:
  assumes i: "1 \<le> i" and e: "fge x (Finite c)" and c: "1 \<le> c"
  shows "ebind (int_mul_float i x) py_round = Inl OverflowError
       \<or> (\<exists>n. ebind (int_mul_float i x) py_round = Inr n \<and> 1 \<le> n)"
proof -
  have "(1::rat) \<le> of_int i" using i by simp
  from round_to_double_ge_1[OF this]
  consider "round_to_double (of_int i) = PosInf"
    | y where "round_to_double (of_int i) = Finite y" "1 \<le> y" by blast
  then show ?thesis
  proof cases
    case 1
    then show ?thesis by (simp add: int_mul_float_def int_to_float_def ebind_def)
  next
    case y: 2
    show ?thesis
    proof (cases x)
      case (Finite q)
      with e c have q: "1 \<le> q" by (simp add: fge_def)
      have "1 * 1 \<le> y * q"
        by (rule mult_mono) (use y q in simp_all)
      then have "1 \<le> y * q" by simp
      from round_to_double_ge_1[OF this]
      consider "round_to_double (y * q) = PosInf"
        | z where "round_to_double (y * q) = Finite z" "1 \<le> z" by blast
      then show ?thesis
      proof cases
        case 1
        then show ?thesis
          using y Finite by (simp add: int_mul_float_def int_to_float_def ebind_def)
      next
        case 2
        then have "1 \<le> round_half_even z" by (intro round_half_even_ge) simp
        with 2 show ?thesis
          using y Finite by (simp add: int_mul_float_def int_to_float_def ebind_def)
      qed
    next
      case PosInf
      then show ?thesis
        using y by (simp add: int_mul_float_def int_to_float_def ebind_def inf_of_sign_def)
    next
      case NegInf
      with e show ?thesis by (simp add: fge_def)
    next
      case NaN
      with e show ?thesis by (simp add: fge_def)
    qed
  qed
qed

lemma review_date_error: "review_date now i = Inl e \<Longrightarrow> e = OverflowError"
  by (auto simp: review_date_def timedelta_def datetime_add_def ebind_def split: if_splits)

lemma review_date_one:
  "review_date now 1 =
     (if valid_datetime (now + 86400000000) then Inr (now + 86400000000) else Inl OverflowError)"
  by (simp add: review_date_def timedelta_def datetime_add_def ebind_def)

lemma sm2_algorithm_schedule:
  "sm2_algorithm s r now1 now2 =
     ebind (new_schedule s r) (\<lambda>(new_interval, new_repetitions).
     ebind (review_date now1 new_interval) (\<lambda>new_next_review.
       Inr \<lparr>card_id = card_id s,
            ease_factor =
              py_max (float_lit (13 / 10))
                (fadd (ease_factor s) (fsub (float_lit (1 / 10))
                   (fmul (Finite (of_int (5 - rating_value r)))
                      (fadd (float_lit (8 / 100))
                         (fmul (Finite (of_int (5 - rating_value r))) (float_lit (2 / 100))))))),
            interval = new_interval,
            repetitions = new_repetitions,
            next_review = new_next_review,
            last_reviewed = Some now2\<rparr>))"
  by (simp add: sm2_algorithm_def new_ease_rating ebind_def)

lemma new_schedule_cases:
  "new_schedule s r =
     (if 3 \<le> rating_value r then
        (if repetitions s = 0 then Inr (1, repetitions s + 1)
         else if repetitions s = 1 then Inr (6, repetitions s + 1)
         else map_sum id (\<lambda>i. (i, repetitions s + 1))
                (ebind (int_mul_float (interval s) (ease_factor s)) py_round))
      else Inr (1, 0))"
  by (simp add: new_schedule_def ebind_def split: sum.splits)

text \<open>
  Claim C1. For every card state \<open>s\<close> and every rating \<open>r\<close>, \<^verbatim>\<open>sm2_algorithm(s, r)\<close> sets the
  interval and the repetitions as follows. If the value of \<open>r\<close> is at least 3, the new
  interval is 1 when \<open>s.repetitions\<close> is 0, 6 when it is 1, and otherwise
  \<^verbatim>\<open>round(s.interval * s.ease_factor)\<close>, with the ease factor that \<open>s\<close> had before this
  review; the new repetitions are \<open>s.repetitions + 1\<close>. If the value of \<open>r\<close> is below 3, the
  new repetitions are 0 and the new interval is 1. The call returns a state with that
  interval and those repetitions unless that \<^verbatim>\<open>round\<close> raises or the date of the next
  review, the clock reading plus that many days, is out of range; it then raises the same
  exception.
\<close>

theorem sm2_interval_repetitions:
  "map_sum id (\<lambda>s'. (interval s', repetitions s')) (sm2_algorithm s r now1 now2) =
     ebind
       (if 3 \<le> rating_value r then
          (if repetitions s = 0 then Inr (1, repetitions s + 1)
           else if repetitions s = 1 then Inr (6, repetitions s + 1)
           else map_sum id (\<lambda>i. (i, repetitions s + 1))
                  (ebind (int_mul_float (interval s) (ease_factor s)) py_round))
        else Inr (1, 0))
       (\<lambda>(i, n). map_sum id (\<lambda>t. (i, n)) (review_date now1 i))"
  unfolding sm2_algorithm_schedule new_schedule_cases
  by (simp add: ebind_def split: sum.splits)

text \<open>
  Claim C2. For every card state \<open>s\<close> and every rating \<open>r\<close> of value \<open>v\<close>, failing ratings
  included, the ease factor of \<^verbatim>\<open>sm2_algorithm(s, r)\<close> is
  \<^verbatim>\<open>max(1.3, s.ease_factor + (0.1 - (5 - v) * (0.08 + (5 - v) * 0.02)))\<close> in binary64
  arithmetic, the integer \<open>5 - v\<close> being converted exactly. The call returns a state unless
  the computation of the new interval (lines 85 to 95) or of the date of the next review
  (line 97) raises; it then raises the same exception.
\<close>

theorem sm2_ease_factor:
  "case sm2_algorithm s r now1 now2 of
     Inr s' \<Rightarrow>
       ease_factor s' =
         py_max (float_lit (13 / 10))
           (fadd (ease_factor s) (fsub (float_lit (1 / 10))
              (fmul (Finite (of_int (5 - rating_value r)))
                 (fadd (float_lit (8 / 100))
                    (fmul (Finite (of_int (5 - rating_value r))) (float_lit (2 / 100)))))))
   | Inl e \<Rightarrow>
       ebind (new_schedule s r) (\<lambda>p. review_date now1 (fst p)) = Inl e"
  unfolding sm2_algorithm_schedule
  by (auto simp: ebind_def split: sum.splits)

lemma sm2_ease_floor:
  "sm2_algorithm s r now1 now2 = Inr s' \<Longrightarrow> fge (ease_factor s') (float_lit (13 / 10))"
  unfolding sm2_algorithm_schedule
  by (auto simp: ebind_def py_max_floor split: sum.splits)

lemma sm2_error_cases:
  "sm2_algorithm s r now1 now2 = Inl e \<Longrightarrow>
     new_schedule s r = Inl e \<or> e = OverflowError"
  unfolding sm2_algorithm_schedule
  by (auto simp: ebind_def split: sum.splits dest: review_date_error)

lemma sm2_failing_returns:
  "rating_value r < 3 \<Longrightarrow> valid_datetime (now1 + 86400000000) \<Longrightarrow>
     \<exists>s'. sm2_algorithm s r now1 now2 = Inr s'"
  unfolding sm2_algorithm_schedule
  by (simp add: new_schedule_def ebind_def review_date_one)

lemma sm2_fresh_returns:
  "repetitions s = 0 \<Longrightarrow> valid_datetime (now1 + 86400000000) \<Longrightarrow>
     \<exists>s'. sm2_algorithm s r now1 now2 = Inr s'"
  unfolding sm2_algorithm_schedule
  by (simp add: new_schedule_def ebind_def review_date_one)

lemma sm2_fresh_raises:
  "repetitions s = 0 \<Longrightarrow> \<not> valid_datetime (now1 + 86400000000) \<Longrightarrow>
     sm2_algorithm s r now1 now2 = Inl OverflowError"
  unfolding sm2_algorithm_schedule
  by (simp add: new_schedule_def ebind_def review_date_one)

lemma apply_ratings_floor:
  "\<forall>s \<in> set (apply_ratings s0 rs). fge (ease_factor s) (float_lit (13 / 10))"
proof (induction rs arbitrary: s0)
  case Nil
  show ?case by simp
next
  case (Cons x rs)
  obtain r n1 n2 where x: "x = (r, n1, n2)" by (cases x)
  show ?case
    using Cons.IH by (auto simp: x sm2_ease_floor split: sum.splits)
qed

lemma apply_ratings_failing:
  "list_all (\<lambda>x. rating_value (fst x) < 3 \<and> valid_datetime (fst (snd x) + 86400000000)) rs \<Longrightarrow>
   length (apply_ratings s0 rs) = length rs"
proof (induction rs arbitrary: s0)
  case Nil
  show ?case by simp
next
  case (Cons x rs)
  obtain r n1 n2 where x: "x = (r, n1, n2)" by (cases x)
  from Cons.prems have r: "rating_value r < 3" and v: "valid_datetime (n1 + 86400000000)"
    and rest: "list_all (\<lambda>x. rating_value (fst x) < 3 \<and> valid_datetime (fst (snd x) + 86400000000)) rs"
    by (simp_all add: x)
  obtain s' where s': "sm2_algorithm s0 r n1 n2 = Inr s'"
    using sm2_failing_returns[OF r v] by blast
  show ?case
    using Cons.IH[OF rest] by (simp add: x s')
qed

text \<open>
  Claim C3. From every initial state whose ease factor is at least 1.3, every state that
  successive calls of \<^verbatim>\<open>sm2_algorithm\<close> produce for a list of ratings has an ease factor
  that is at least 1.3, hence not below 1.3. A list of failing ratings, such as repeated
  \<^verbatim>\<open>AGAIN\<close>, is processed to its end, no call raising, when the day after each review is
  still a date of the calendar.
\<close>

theorem ease_factor_never_below_floor:
  assumes "fge (ease_factor s0) (float_lit (13 / 10))"
  shows "(\<forall>s \<in> set (s0 # apply_ratings s0 rs).
            fge (ease_factor s) (float_lit (13 / 10)) \<and> \<not> flt (ease_factor s) (float_lit (13 / 10)))
       \<and> (list_all (\<lambda>x. rating_value (fst x) < 3 \<and> valid_datetime (fst (snd x) + 86400000000)) rs
            \<longrightarrow> length (apply_ratings s0 rs) = length rs)"
  using assms apply_ratings_floor[of s0 rs] apply_ratings_failing[of rs s0]
  by (auto dest: fge_not_flt)

lemma sm2_interval_positive_aux:
  assumes "rating_value r < 3 \<or> repetitions s = 0 \<or> repetitions s = 1
      \<or> (1 \<le> interval s \<and> fge (ease_factor s) (float_lit (13 / 10)))"
  shows "case sm2_algorithm s r now1 now2 of
           Inr s' \<Rightarrow> 1 \<le> interval s'
         | Inl e \<Rightarrow> e = OverflowError"
proof -
  have sched: "new_schedule s r = Inl OverflowError
      \<or> (\<exists>i n. new_schedule s r = Inr (i, n) \<and> 1 \<le> i)"
  proof (cases "rating_value r < 3 \<or> repetitions s = 0 \<or> repetitions s = 1")
    case True
    then show ?thesis
      by (auto simp: new_schedule_def ebind_def)
  next
    case False
    with assms have i: "1 \<le> interval s"
      and e: "fge (ease_factor s) (Finite (5854679515581645 / 4503599627370496))"
      by (simp_all add: float_lit_13_10)
    have "ebind (int_mul_float (interval s) (ease_factor s)) py_round = Inl OverflowError
       \<or> (\<exists>n. ebind (int_mul_float (interval s) (ease_factor s)) py_round = Inr n \<and> 1 \<le> n)"
      by (rule int_mul_float_ge_1[OF i e]) simp
    then show ?thesis
      using False by (auto simp: new_schedule_def ebind_def)
  qed
  show ?thesis
  proof (cases "sm2_algorithm s r now1 now2")
    case (Inl e)
    from sm2_error_cases[OF Inl] sched have "e = OverflowError" by auto
    with Inl show ?thesis by simp
  next
    case (Inr s')
    with sched show ?thesis
      unfolding sm2_algorithm_schedule
      by (auto simp: ebind_def split: sum.splits)
  qed
qed

text \<open>
  Claim C4, as amended. The interval of the state that \<^verbatim>\<open>sm2_algorithm(s, r)\<close> returns is at
  least 1 when the rating fails, or \<open>s.repetitions\<close> is 0 or 1, or \<open>s.interval\<close> is at least 1
  and \<open>s.ease_factor\<close> is at least 1.3; under this condition the call can only raise
  \<^verbatim>\<open>OverflowError\<close>. Hence \<^verbatim>\<open>review_card\<close> stores, and returns, a state whose interval is at
  least 1 when the card has no stored state or its stored state meets the condition.
\<close>

theorem sm2_interval_positive:
  "(rating_value r < 3 \<or> repetitions s = 0 \<or> repetitions s = 1
      \<or> (1 \<le> interval s \<and> fge (ease_factor s) (float_lit (13 / 10)))
    \<longrightarrow> (case sm2_algorithm s r now1 now2 of
           Inr s' \<Rightarrow> 1 \<le> interval s'
         | Inl e \<Rightarrow> e = OverflowError))
   \<and> ((case DAList.lookup cs cid of
          None \<Rightarrow> True
        | Some s \<Rightarrow> rating_value r < 3 \<or> repetitions s = 0 \<or> repetitions s = 1
            \<or> (1 \<le> interval s \<and> fge (ease_factor s) (float_lit (13 / 10))))
    \<longrightarrow> (case review_card cs cid r now0 now1 now2 of
           Inr (s', cs') \<Rightarrow> 1 \<le> interval s' \<and> DAList.lookup cs' cid = Some s'
         | Inl e \<Rightarrow> e = OverflowError))"
proof (intro conjI impI)
  assume "rating_value r < 3 \<or> repetitions s = 0 \<or> repetitions s = 1
      \<or> (1 \<le> interval s \<and> fge (ease_factor s) (float_lit (13 / 10)))"
  then show "case sm2_algorithm s r now1 now2 of
           Inr s' \<Rightarrow> 1 \<le> interval s'
         | Inl e \<Rightarrow> e = OverflowError"
    by (rule sm2_interval_positive_aux)
next
  assume h: "case DAList.lookup cs cid of
          None \<Rightarrow> True
        | Some s \<Rightarrow> rating_value r < 3 \<or> repetitions s = 0 \<or> repetitions s = 1
            \<or> (1 \<le> interval s \<and> fge (ease_factor s) (float_lit (13 / 10)))"
  define cur where "cur = (case DAList.lookup cs cid of Some state \<Rightarrow> state | None \<Rightarrow> new_CardState cid now0)"
  have "rating_value r < 3 \<or> repetitions cur = 0 \<or> repetitions cur = 1
      \<or> (1 \<le> interval cur \<and> fge (ease_factor cur) (float_lit (13 / 10)))"
    using h by (auto simp: cur_def new_CardState_def split: option.splits)
  from sm2_interval_positive_aux[OF this, of now1 now2]
  show "case review_card cs cid r now0 now1 now2 of
           Inr (s', cs') \<Rightarrow> 1 \<le> interval s' \<and> DAList.lookup cs' cid = Some s'
         | Inl e \<Rightarrow> e = OverflowError"
    by (auto simp: review_card_def cur_def[symmetric] ebind_def split: sum.splits)
qed

lemma ebind_Inr: "ebind (Inr x) f = f x"
  by (simp add: ebind_def)

lemma round_to_double_6: "round_to_double 6 = Finite 6"
  by (subst round_to_double_normal[where k = 2]) (simp_all add: round_eval)

lemma interval_6_ease_236:
  "ebind (int_mul_float 6 (float_lit (236 / 100))) py_round = Inr 14"
proof -
  have "fmul (Finite 6) (float_lit (236 / 100)) = Finite (3985685670222889 / 281474976710656)"
    unfolding float_lit_236_100 fmul.simps
    by (subst round_to_double_normal[where k = 3]) (simp_all add: round_eval)
  then show ?thesis
    by (simp add: int_mul_float_def int_to_float_def round_to_double_6 ebind_def round_eval)
qed

lemma review_date_5_14: "review_date 5 14 = Inr 1209600000005"
  by (simp add: review_date_def timedelta_def datetime_add_def valid_datetime_def
      datetime_max_def ebind_def)

theorem sm2_interval_repetitions_witness:
  "map_sum id (\<lambda>s'. (interval s', repetitions s'))
     (sm2_algorithm
        \<lparr>card_id = ''174'', ease_factor = float_lit (236 / 100), interval = 6,
         repetitions = 2, next_review = 0, last_reviewed = None\<rparr> EASY 5 6)
   = Inr (14, 3)"
  using sm2_interval_repetitions[where s =
      "\<lparr>card_id = ''174'', ease_factor = float_lit (236 / 100), interval = 6,
         repetitions = 2, next_review = 0, last_reviewed = None\<rparr>"
      and r = EASY and ?now1.0 = 5 and ?now2.0 = 6]
  by (simp add: interval_6_ease_236[simplified] review_date_5_14 ebind_Inr)

theorem sm2_ease_factor_witness:
  "map_sum id ease_factor (sm2_algorithm (new_CardState ''174'' 0) GOOD 5 6)
   = Inr (float_lit (236 / 100))"
proof -
  have f: "py_max (float_lit (13 / 10))
           (fadd (float_lit (5 / 2)) (fsub (float_lit (1 / 10))
              (fmul (Finite (of_int (5 - rating_value GOOD)))
                 (fadd (float_lit (8 / 100))
                    (fmul (Finite (of_int (5 - rating_value GOOD))) (float_lit (2 / 100)))))))
     = float_lit (236 / 100)"
    using new_ease_good_fresh unfolding new_ease_rating by simp
  have s: "ease_factor (new_CardState ''174'' 0) = float_lit (5 / 2)"
    by (simp add: new_CardState_def)
  have d: "ebind (new_schedule (new_CardState ''174'' 0) GOOD) (\<lambda>p. review_date 5 (fst p))
      = Inr 86400000005"
    by (simp add: new_schedule_def new_CardState_def review_date_one valid_datetime_def
        datetime_max_def ebind_def)
  show ?thesis
    using sm2_ease_factor[where s = "new_CardState ''174'' 0" and r = GOOD
        and ?now1.0 = 5 and ?now2.0 = 6]
    unfolding s f d
    by (cases "sm2_algorithm (new_CardState ''174'' 0) GOOD 5 6") simp_all
qed

theorem ease_factor_never_below_floor_witness:
  "fge (ease_factor (new_CardState ''174'' 0)) (float_lit (13 / 10))
   \<and> list_all
        (\<lambda>s. fge (ease_factor s) (float_lit (13 / 10)) \<and> \<not> flt (ease_factor s) (float_lit (13 / 10)))
        (new_CardState ''174'' 0
           # apply_ratings (new_CardState ''174'' 0) [(AGAIN, 1, 2), (AGAIN, 3, 4)])
   \<and> length (apply_ratings (new_CardState ''174'' 0) [(AGAIN, 1, 2), (AGAIN, 3, 4)]) = 2"
proof -
  have h: "fge (ease_factor (new_CardState ''174'' 0)) (float_lit (13 / 10))"
    by (simp add: new_CardState_def float_lit_5_2 float_lit_13_10 fge_def)
  from ease_factor_never_below_floor[OF h, where rs = "[(AGAIN, 1, 2), (AGAIN, 3, 4)]"] h
  show ?thesis by (simp add: list_all_iff valid_datetime_def datetime_max_def)
qed

text \<open>
  Without that condition the interval can be 0: a state with interval 0 and two
  repetitions, rated \<^verbatim>\<open>GOOD\<close>, gets the interval \<^verbatim>\<open>round(0 * 2.5)\<close>.
\<close>

theorem sm2_interval_counterexample:
  "map_sum id interval
     (sm2_algorithm
        \<lparr>card_id = ''174'', ease_factor = float_lit (5 / 2), interval = 0,
         repetitions = 2, next_review = 0, last_reviewed = None\<rparr> GOOD 0 0)
   = Inr 0
   \<and> map_sum id (interval \<circ> fst)
     (review_card
        (DAList.update ''174''
           \<lparr>card_id = ''174'', ease_factor = float_lit (5 / 2), interval = 0,
            repetitions = 2, next_review = 0, last_reviewed = None\<rparr> DAList.empty)
        ''174'' GOOD 0 0 0)
   = Inr 0"
  by (simp add: review_card_def sm2_algorithm_schedule new_schedule_def
      int_mul_float_def int_to_float_def round_to_double_0 float_lit_5_2 ebind_def
      round_half_even_def Let_def review_date_def timedelta_def datetime_add_def
      valid_datetime_def datetime_max_def)

theorem sm2_interval_positive_witness:
  "(1 \<le> interval \<lparr>card_id = ''174'', ease_factor = float_lit (236 / 100), interval = 6,
         repetitions = 2, next_review = 0, last_reviewed = None\<rparr>
    \<and> fge (float_lit (236 / 100)) (float_lit (13 / 10)))
   \<and> (case sm2_algorithm
        \<lparr>card_id = ''174'', ease_factor = float_lit (236 / 100), interval = 6,
         repetitions = 2, next_review = 0, last_reviewed = None\<rparr> EASY 5 6 of
        Inr s' \<Rightarrow> 1 \<le> interval s'
      | Inl e \<Rightarrow> e = OverflowError)
   \<and> (case review_card
        (DAList.update ''174''
           \<lparr>card_id = ''174'', ease_factor = float_lit (236 / 100), interval = 6,
            repetitions = 2, next_review = 0, last_reviewed = None\<rparr> DAList.empty)
        ''174'' EASY 4 5 6 of
        Inr (s', cs') \<Rightarrow> 1 \<le> interval s' \<and> DAList.lookup cs' ''174'' = Some s'
      | Inl e \<Rightarrow> e = OverflowError)"
proof -
  have h: "fge (float_lit (236 / 100)) (float_lit (13 / 10))"
    unfolding float_lit_236_100 float_lit_13_10 by (simp add: fge_def)
  from sm2_interval_positive[where r = EASY and s =
      "\<lparr>card_id = ''174'', ease_factor = float_lit (236 / 100), interval = 6,
         repetitions = 2, next_review = 0, last_reviewed = None\<rparr>"
      and ?now1.0 = 5 and ?now2.0 = 6 and cs =
      "DAList.update ''174''
           \<lparr>card_id = ''174'', ease_factor = float_lit (236 / 100), interval = 6,
            repetitions = 2, next_review = 0, last_reviewed = None\<rparr> DAList.empty"
      and cid = "''174''" and ?now0.0 = 4] h
  show ?thesis by simp
qed

section \<open>The scheduler\<close>

lemma due_entries_const:
  "due_entries (\<lambda>_. now) k xs = filter (\<lambda>x. next_review (snd x) \<le> now) xs"
  by (induction xs arbitrary: k) (auto simp: is_due_def)

lemma get_due_cards_const:
  "get_due_cards cs (\<lambda>_. now) =
     map fst (sort_key (\<lambda>x. next_review (snd x))
       (filter (\<lambda>x. next_review (snd x) \<le> now) (DAList.impl_of cs)))"
  by (simp add: get_due_cards_def due_entries_const)

lemma lookup_impl_of:
  "DAList.lookup cs cid = Some st \<longleftrightarrow> (cid, st) \<in> set (DAList.impl_of cs)"
  by (simp add: DAList.lookup.rep_eq)

lemma distinct_map_fst_sort_key:
  "distinct (map fst (sort_key f xs)) = distinct (map fst xs)"
  by (simp add: distinct_map)

text \<open>
  Claim C5. For every state store and every current time \<open>now\<close> (each reading of the clock
  during the call being \<open>now\<close>), \<^verbatim>\<open>get_due_cards()\<close> returns exactly the card ids whose stored
  state has \<open>next_review \<le> now\<close>, each of them once, in non-decreasing order of
  \<open>next_review\<close>; the result is empty exactly when no card is due, in particular when the
  store is empty.
\<close>

theorem get_due_cards_spec:
  "set (get_due_cards cs (\<lambda>_. now))
     = {cid. \<exists>st. DAList.lookup cs cid = Some st \<and> next_review st \<le> now}
   \<and> distinct (get_due_cards cs (\<lambda>_. now))
   \<and> sorted (map (\<lambda>cid. next_review (the (DAList.lookup cs cid))) (get_due_cards cs (\<lambda>_. now)))
   \<and> (get_due_cards cs (\<lambda>_. now) = [])
       = ({cid. \<exists>st. DAList.lookup cs cid = Some st \<and> next_review st \<le> now} = {})
   \<and> get_due_cards DAList.empty clock = []"
proof -
  define due where "due = filter (\<lambda>x. next_review (snd x) \<le> now) (DAList.impl_of cs)"
  define srt where "srt = sort_key (\<lambda>x. next_review (snd x)) due"
  have res: "get_due_cards cs (\<lambda>_. now) = map fst srt"
    by (simp add: get_due_cards_const srt_def due_def)
  have mem: "set srt = {x \<in> set (DAList.impl_of cs). next_review (snd x) \<le> now}"
    by (auto simp: srt_def due_def)
  have s: "set (map fst srt) = {cid. \<exists>st. DAList.lookup cs cid = Some st \<and> next_review st \<le> now}"
    by (force simp: mem lookup_impl_of)
  have "distinct (map fst due)"
    unfolding due_def by (rule distinct_map_filter) simp
  then have d: "distinct (map fst srt)"
    by (simp add: srt_def distinct_map_fst_sort_key)
  have "map (\<lambda>cid. next_review (the (DAList.lookup cs cid))) (map fst srt)
      = map (\<lambda>x. next_review (snd x)) srt"
  proof -
    have "next_review (the (DAList.lookup cs (fst x))) = next_review (snd x)"
      if "x \<in> set srt" for x
    proof -
      from that have "(fst x, snd x) \<in> set (DAList.impl_of cs)" by (simp add: mem)
      then have "DAList.lookup cs (fst x) = Some (snd x)" by (simp add: lookup_impl_of)
      then show ?thesis by simp
    qed
    then show ?thesis by simp
  qed
  also have "sorted \<dots>"
    unfolding srt_def by (rule sorted_sort_key)
  finally have o: "sorted (map (\<lambda>cid. next_review (the (DAList.lookup cs cid))) (map fst srt))" .
  have e: "(map fst srt = []) = (set (map fst srt) = {})"
    by simp
  have "get_due_cards DAList.empty clock = []"
    by (simp add: get_due_cards_def DAList.empty.rep_eq)
  with s d o e show ?thesis
    unfolding res by simp
qed

lemma studied_iff: "cid \<notin> set (map fst (DAList.impl_of cs)) \<longleftrightarrow> DAList.lookup cs cid = None"
  by (simp add: DAList.lookup.rep_eq map_of_eq_None_iff)

lemma get_new_cards_take:
  "0 \<le> limit \<Longrightarrow>
   get_new_cards cs ids limit = take (nat limit) (filter (\<lambda>cid. DAList.lookup cs cid = None) ids)"
  by (simp add: get_new_cards_def py_slice_to_def studied_iff del: set_map)

text \<open>
  Claim C6. For every state store, every list \<open>ids\<close> and every non-negative \<open>limit\<close>,
  \<^verbatim>\<open>get_new_cards(ids, limit)\<close> returns at most \<open>limit\<close> identifiers, each of them in \<open>ids\<close>
  and absent from the store, in the order of \<open>ids\<close>: they are the first \<open>limit\<close> identifiers
  of \<open>ids\<close> that the store does not hold. A limit of 0 yields the empty list.
\<close>

theorem get_new_cards_spec:
  assumes "0 \<le> limit"
  shows "int (length (get_new_cards cs ids limit)) \<le> limit
       \<and> set (get_new_cards cs ids limit) \<subseteq> set ids
       \<and> list_all (\<lambda>cid. DAList.lookup cs cid = None) (get_new_cards cs ids limit)
       \<and> subseq (get_new_cards cs ids limit) ids
       \<and> get_new_cards cs ids limit
           = take (nat limit) (filter (\<lambda>cid. DAList.lookup cs cid = None) ids)
       \<and> get_new_cards cs ids 0 = []"
proof -
  let ?new = "filter (\<lambda>cid. DAList.lookup cs cid = None) ids"
  have r: "get_new_cards cs ids limit = take (nat limit) ?new"
    using assms by (rule get_new_cards_take)
  have "set (take (nat limit) ?new) \<subseteq> set ?new"
    by (rule set_take_subset)
  then have m: "set (take (nat limit) ?new) \<subseteq> set ids"
    and a: "list_all (\<lambda>cid. DAList.lookup cs cid = None) (take (nat limit) ?new)"
    by (auto simp: list_all_iff)
  have "subseq (take (nat limit) ?new) ?new"
    by (metis append_take_drop_id prefix_def prefix_imp_subseq)
  then have o: "subseq (take (nat limit) ?new) ids"
    by (rule subseq_order.order_trans) simp
  have l: "int (length (take (nat limit) ?new)) \<le> limit"
    using assms by simp
  have z: "get_new_cards cs ids 0 = []"
    by (simp add: get_new_cards_take)
  from l m a o z show ?thesis
    unfolding r by simp
qed

theorem get_due_cards_spec_witness:
  "get_due_cards
     (DAList.update ''c'' (new_CardState ''c'' 10)
       (DAList.update ''b'' (new_CardState ''b'' 200)
         (DAList.update ''a'' (new_CardState ''a'' 50) DAList.empty))) (\<lambda>_. 100)
   = [''c'', ''a'']
   \<and> set [''c'', ''a'']
     = {cid. \<exists>st. DAList.lookup
         (DAList.update ''c'' (new_CardState ''c'' 10)
           (DAList.update ''b'' (new_CardState ''b'' 200)
             (DAList.update ''a'' (new_CardState ''a'' 50) DAList.empty))) cid = Some st
        \<and> next_review st \<le> 100}"
proof -
  have e: "get_due_cards
     (DAList.update ''c'' (new_CardState ''c'' 10)
       (DAList.update ''b'' (new_CardState ''b'' 200)
         (DAList.update ''a'' (new_CardState ''a'' 50) DAList.empty))) (\<lambda>_. 100)
   = [''c'', ''a'']"
    by (simp add: get_due_cards_def DAList.update.rep_eq DAList.empty.rep_eq is_due_def
        new_CardState_def)
  from get_due_cards_spec[where now = 100 and cs =
      "DAList.update ''c'' (new_CardState ''c'' 10)
       (DAList.update ''b'' (new_CardState ''b'' 200)
         (DAList.update ''a'' (new_CardState ''a'' 50) DAList.empty))"]
  show ?thesis
    unfolding e by blast
qed

theorem get_new_cards_spec_witness:
  "get_new_cards
     (DAList.update ''b'' (new_CardState ''b'' 200)
       (DAList.update ''a'' (new_CardState ''a'' 50) DAList.empty))
     [''a'', ''x'', ''b'', ''y'', ''z''] 2
   = [''x'', ''y'']
   \<and> subseq [''x'', ''y''] [''a'', ''x'', ''b'', ''y'', ''z'']
   \<and> list_all (\<lambda>cid. DAList.lookup
         (DAList.update ''b'' (new_CardState ''b'' 200)
           (DAList.update ''a'' (new_CardState ''a'' 50) DAList.empty)) cid = None)
       [''x'', ''y'']"
proof -
  have e: "get_new_cards
     (DAList.update ''b'' (new_CardState ''b'' 200)
       (DAList.update ''a'' (new_CardState ''a'' 50) DAList.empty))
     [''a'', ''x'', ''b'', ''y'', ''z''] 2
   = [''x'', ''y'']"
    by (simp add: get_new_cards_def py_slice_to_def DAList.update.rep_eq DAList.empty.rep_eq)
  have l: "(0::int) \<le> 2" by simp
  from get_new_cards_spec[OF l, where ids = "[''a'', ''x'', ''b'', ''y'', ''z'']" and cs =
      "DAList.update ''b'' (new_CardState ''b'' 200)
       (DAList.update ''a'' (new_CardState ''a'' 50) DAList.empty)"]
  show ?thesis
    unfolding e by blast
qed

text \<open>
  Claim C9, as amended. \<^verbatim>\<open>review_card\<close> raises no error on account of the card id. When no
  state exists for \<open>cid\<close>, its outcome is that of \<^verbatim>\<open>sm2_algorithm\<close> on the default state (ease
  factor 2.5, interval 0, repetitions 0, next review at the clock reading, never
  reviewed): the new state is stored under \<open>cid\<close> and returned. In this case the call
  returns exactly when the day after the clock reading of line 97 is a date of the
  calendar, and raises \<^verbatim>\<open>OverflowError\<close> otherwise. When a state exists for \<open>cid\<close>, the
  outcome is that of \<^verbatim>\<open>sm2_algorithm\<close> on the stored state: the new state, stored under
  \<open>cid\<close> and returned, or the exception that \<^verbatim>\<open>sm2_algorithm\<close> raises.
\<close>

theorem review_card_unknown_id:
  "(DAList.lookup cs cid = None \<longrightarrow>
      review_card cs cid r now0 now1 now2
        = map_sum id (\<lambda>s'. (s', DAList.update cid s' cs))
            (sm2_algorithm
               \<lparr>card_id = cid, ease_factor = float_lit (5 / 2), interval = 0, repetitions = 0,
                next_review = now0, last_reviewed = None\<rparr> r now1 now2)
      \<and> (valid_datetime (now1 + 86400000000) \<longrightarrow>
           (\<exists>s'. review_card cs cid r now0 now1 now2 = Inr (s', DAList.update cid s' cs)
               \<and> DAList.lookup (DAList.update cid s' cs) cid = Some s'))
      \<and> (\<not> valid_datetime (now1 + 86400000000) \<longrightarrow>
           review_card cs cid r now0 now1 now2 = Inl OverflowError))
   \<and> (\<forall>s. DAList.lookup cs cid = Some s \<longrightarrow>
        review_card cs cid r now0 now1 now2
          = map_sum id (\<lambda>s'. (s', DAList.update cid s' cs)) (sm2_algorithm s r now1 now2))"
proof (intro conjI impI allI)
  assume n: "DAList.lookup cs cid = None"
  show eq: "review_card cs cid r now0 now1 now2
        = map_sum id (\<lambda>s'. (s', DAList.update cid s' cs))
            (sm2_algorithm
               \<lparr>card_id = cid, ease_factor = float_lit (5 / 2), interval = 0, repetitions = 0,
                next_review = now0, last_reviewed = None\<rparr> r now1 now2)"
    using n by (simp add: review_card_def new_CardState_def ebind_def split: sum.splits)
  have fresh: "repetitions \<lparr>card_id = cid, ease_factor = float_lit (5 / 2), interval = 0,
      repetitions = 0, next_review = now0, last_reviewed = None\<rparr> = 0"
    by simp
  {
    assume "valid_datetime (now1 + 86400000000)"
    from sm2_fresh_returns[OF fresh this]
    obtain s' where "sm2_algorithm
               \<lparr>card_id = cid, ease_factor = float_lit (5 / 2), interval = 0, repetitions = 0,
                next_review = now0, last_reviewed = None\<rparr> r now1 now2 = Inr s'"
      by blast
    then show "\<exists>s'. review_card cs cid r now0 now1 now2 = Inr (s', DAList.update cid s' cs)
               \<and> DAList.lookup (DAList.update cid s' cs) cid = Some s'"
      by (simp add: eq)
  }
  {
    assume "\<not> valid_datetime (now1 + 86400000000)"
    from sm2_fresh_raises[OF fresh this]
    show "review_card cs cid r now0 now1 now2 = Inl OverflowError"
      by (simp add: eq)
  }
next
  fix s
  assume "DAList.lookup cs cid = Some s"
  then show "review_card cs cid r now0 now1 now2
          = map_sum id (\<lambda>s'. (s', DAList.update cid s' cs)) (sm2_algorithm s r now1 now2)"
    by (simp add: review_card_def ebind_def split: sum.splits)
qed

lemma round_to_double_1: "round_to_double 1 = Finite 1"
  by (subst round_to_double_normal[where k = 0]) (simp_all add: round_eval)

lemma round_to_double_3000000: "round_to_double 3000000 = Finite 3000000"
  by (subst round_to_double_normal[where k = 21]) (simp_all add: round_eval)

lemma round_to_double_7500000: "round_to_double 7500000 = Finite 7500000"
  by (subst round_to_double_normal[where k = 22]) (simp_all add: round_eval)

text \<open>
  A stored state can make the call raise. With an infinite ease factor and two
  repetitions, a \<^verbatim>\<open>GOOD\<close> review evaluates \<^verbatim>\<open>round(1 * inf)\<close>. With an interval of 3000000
  days, an ease factor of 2.5 and two repetitions, a \<^verbatim>\<open>GOOD\<close> review at the clock reading
  63902822400000000 (2026-01-01T00:00:00) computes the interval 7500000, and the date 7500000 days
  after the clock reading is past the year 9999.
\<close>

theorem review_card_raises_counterexample:
  "review_card
     (DAList.update ''174''
        \<lparr>card_id = ''174'', ease_factor = PosInf, interval = 1, repetitions = 2,
         next_review = 0, last_reviewed = None\<rparr> DAList.empty)
     ''174'' GOOD 0 0 0
   = Inl OverflowError
   \<and> review_card
     (DAList.update ''174''
        \<lparr>card_id = ''174'', ease_factor = float_lit (5 / 2), interval = 3000000,
         repetitions = 2, next_review = 0, last_reviewed = None\<rparr> DAList.empty)
     ''174'' GOOD 63902822400000000 63902822400000000 63902822400000000
   = Inl OverflowError"
proof -
  have a: "new_schedule
        \<lparr>card_id = ''174'', ease_factor = PosInf, interval = 1, repetitions = 2,
         next_review = 0, last_reviewed = None\<rparr> GOOD = Inl OverflowError"
    by (simp add: new_schedule_def int_mul_float_def int_to_float_def round_to_double_1
        ebind_def inf_of_sign_def)
  have b: "new_schedule
        \<lparr>card_id = ''174'', ease_factor = float_lit (5 / 2), interval = 3000000,
         repetitions = 2, next_review = 0, last_reviewed = None\<rparr> GOOD = Inr (7500000, 3)"
    by (simp add: new_schedule_def int_mul_float_def int_to_float_def float_lit_5_2
        round_to_double_3000000 round_to_double_7500000 ebind_def round_half_even_def)
  have c: "review_date 63902822400000000 7500000 = Inl OverflowError"
    by (simp add: review_date_def timedelta_def datetime_add_def valid_datetime_def
        datetime_max_def ebind_def)
  show ?thesis
    by (simp add: review_card_def sm2_algorithm_schedule a b c ebind_def)
qed

theorem review_card_unknown_id_witness:
  "DAList.lookup (DAList.update ''a'' (new_CardState ''a'' 50) DAList.empty) ''174'' = None
   \<and> valid_datetime (5 + 86400000000)
   \<and> (\<exists>s'. review_card (DAList.update ''a'' (new_CardState ''a'' 50) DAList.empty)
             ''174'' GOOD 4 5 6
           = Inr (s', DAList.update ''174'' s'
                        (DAList.update ''a'' (new_CardState ''a'' 50) DAList.empty))
         \<and> DAList.lookup
             (DAList.update ''174'' s'
                (DAList.update ''a'' (new_CardState ''a'' 50) DAList.empty)) ''174'' = Some s')
   \<and> \<not> valid_datetime (datetime_max + 86400000000)
   \<and> review_card (DAList.update ''a'' (new_CardState ''a'' 50) DAList.empty)
        ''174'' GOOD datetime_max datetime_max datetime_max
       = Inl OverflowError
   \<and> DAList.lookup (DAList.update ''a'' (new_CardState ''a'' 50) DAList.empty) ''a''
       = Some (new_CardState ''a'' 50)
   \<and> review_card (DAList.update ''a'' (new_CardState ''a'' 50) DAList.empty) ''a'' GOOD 4 5 6
       = map_sum id
           (\<lambda>s'. (s', DAList.update ''a'' s'
                         (DAList.update ''a'' (new_CardState ''a'' 50) DAList.empty)))
           (sm2_algorithm (new_CardState ''a'' 50) GOOD 5 6)"
proof -
  have n: "DAList.lookup (DAList.update ''a'' (new_CardState ''a'' 50) DAList.empty) ''174'' = None"
    by simp
  have p: "DAList.lookup (DAList.update ''a'' (new_CardState ''a'' 50) DAList.empty) ''a''
       = Some (new_CardState ''a'' 50)"
    by simp
  have v: "valid_datetime (5 + 86400000000)"
    by (simp add: valid_datetime_def datetime_max_def)
  have w: "\<not> valid_datetime (datetime_max + 86400000000)"
    by (simp add: valid_datetime_def)
  from review_card_unknown_id[where cs = "DAList.update ''a'' (new_CardState ''a'' 50) DAList.empty"
      and cid = "''174''" and r = GOOD and ?now0.0 = 4 and ?now1.0 = 5 and ?now2.0 = 6] n v
  have a: "\<exists>s'. review_card (DAList.update ''a'' (new_CardState ''a'' 50) DAList.empty)
             ''174'' GOOD 4 5 6
           = Inr (s', DAList.update ''174'' s'
                        (DAList.update ''a'' (new_CardState ''a'' 50) DAList.empty))
         \<and> DAList.lookup
             (DAList.update ''174'' s'
                (DAList.update ''a'' (new_CardState ''a'' 50) DAList.empty)) ''174'' = Some s'"
    by blast
  from review_card_unknown_id[where cs = "DAList.update ''a'' (new_CardState ''a'' 50) DAList.empty"
      and cid = "''174''" and r = GOOD and ?now0.0 = datetime_max and ?now1.0 = datetime_max
      and ?now2.0 = datetime_max] n w
  have c: "review_card (DAList.update ''a'' (new_CardState ''a'' 50) DAList.empty)
        ''174'' GOOD datetime_max datetime_max datetime_max
       = Inl OverflowError"
    by blast
  from review_card_unknown_id[where cs = "DAList.update ''a'' (new_CardState ''a'' 50) DAList.empty"
      and cid = "''a''" and r = GOOD and ?now0.0 = 4 and ?now1.0 = 5 and ?now2.0 = 6] p
  have b: "review_card (DAList.update ''a'' (new_CardState ''a'' 50) DAList.empty) ''a'' GOOD 4 5 6
       = map_sum id
           (\<lambda>s'. (s', DAList.update ''a'' s'
                         (DAList.update ''a'' (new_CardState ''a'' 50) DAList.empty)))
           (sm2_algorithm (new_CardState ''a'' 50) GOOD 5 6)"
    by blast
  from n v a w c p b show ?thesis by blast
qed

text \<open>
  Claim C10, as amended. When \<^verbatim>\<open>review_card(cid, rating)\<close> returns, every key other than
  \<open>cid\<close> maps to the state it mapped to before, the entry at \<open>cid\<close> is the returned state,
  and the \<open>card_id\<close> field of that state is \<open>cid\<close> when no state was stored for \<open>cid\<close>, and
  otherwise the \<open>card_id\<close> field of the stored state. When the call raises, it is
  \<^verbatim>\<open>sm2_algorithm\<close> that raises, before the store is assigned to.
\<close>

theorem review_card_frame:
  "case review_card cs cid r now0 now1 now2 of
     Inr (s', cs') \<Rightarrow>
       (\<forall>k. k \<noteq> cid \<longrightarrow> DAList.lookup cs' k = DAList.lookup cs k)
       \<and> DAList.lookup cs' cid = Some s'
       \<and> card_id s' = (case DAList.lookup cs cid of None \<Rightarrow> cid | Some s \<Rightarrow> card_id s)
   | Inl e \<Rightarrow>
       sm2_algorithm
         (case DAList.lookup cs cid of None \<Rightarrow> new_CardState cid now0 | Some s \<Rightarrow> s)
         r now1 now2 = Inl e"
  by (auto simp: review_card_def sm2_algorithm_schedule new_CardState_def ebind_def
      split: sum.splits option.splits prod.splits)

text \<open>
  The \<open>card_id\<close> field is copied from the stored state, not taken from the argument: a
  state stored under another key keeps its own \<open>card_id\<close>.
\<close>

theorem review_card_card_id_counterexample:
  "map_sum id (card_id \<circ> fst)
     (review_card
        (DAList.update ''a'' (new_CardState ''b'' 50) DAList.empty) ''a'' AGAIN 4 5 6)
   = Inr ''b''"
  by (simp add: review_card_def sm2_algorithm_schedule new_schedule_def new_CardState_def
      ebind_def review_date_one valid_datetime_def datetime_max_def)

theorem review_card_frame_witness:
  "\<exists>s' cs'. review_card
        (DAList.update ''b'' (new_CardState ''b'' 200)
          (DAList.update ''a'' (new_CardState ''a'' 50) DAList.empty)) ''b'' AGAIN 4 5 6
      = Inr (s', cs')
    \<and> DAList.lookup cs' ''a'' = Some (new_CardState ''a'' 50)
    \<and> DAList.lookup cs' ''b'' = Some s'
    \<and> card_id s' = ''b''"
proof -
  have "repetitions (new_CardState ''b'' 200) = 0"
    by (simp add: new_CardState_def)
  moreover have "valid_datetime (5 + 86400000000)"
    by (simp add: valid_datetime_def datetime_max_def)
  ultimately obtain s' where s': "sm2_algorithm (new_CardState ''b'' 200) AGAIN 5 6 = Inr s'"
    using sm2_fresh_returns by blast
  then have r: "review_card
        (DAList.update ''b'' (new_CardState ''b'' 200)
          (DAList.update ''a'' (new_CardState ''a'' 50) DAList.empty)) ''b'' AGAIN 4 5 6
      = Inr (s', DAList.update ''b'' s'
          (DAList.update ''b'' (new_CardState ''b'' 200)
            (DAList.update ''a'' (new_CardState ''a'' 50) DAList.empty)))"
    by (simp add: review_card_def ebind_def)
  from review_card_frame[where cs = "DAList.update ''b'' (new_CardState ''b'' 200)
          (DAList.update ''a'' (new_CardState ''a'' 50) DAList.empty)"
      and cid = "''b''" and r = AGAIN and ?now0.0 = 4 and ?now1.0 = 5 and ?now2.0 = 6]
  show ?thesis
    unfolding r by (simp add: new_CardState_def)
qed

section \<open>The study session\<close>

lemma NETWORKS_ids:
  "map (\<lambda>n. str_int (asn n)) NETWORKS =
     [''3356'', ''174'', ''2914'', ''1299'', ''3257'', ''6762'', ''6453'', ''701'', ''7018'',
      ''3491'', ''5511'', ''6830'', ''1239'', ''12956'', ''6939'', ''7922'', ''4134'', ''4837'',
      ''9002'', ''3320'', ''2516'', ''4766'', ''9498'', ''4323'', ''7843'', ''22773'', ''5650'',
      ''20115'', ''11351'', ''11426'', ''13335'', ''20940'', ''54113'', ''15133'', ''22822'',
      ''2906'', ''46489'', ''16509'', ''14618'', ''15169'', ''8075'', ''36351'', ''45102'',
      ''13414'', ''32934'', ''714'', ''396982'', ''19679'', ''6695'', ''1200'', ''24115'',
      ''8674'', ''2914'', ''24940'', ''13238'', ''14061'', ''63949'', ''20473'', ''132203'',
      ''398324'']"
  by (simp add: NETWORKS_def str_int_def)


lemma load_study_session_ids:
  "map (\<lambda>n. str_int (asn n)) (load_study_session cs clock networks) =
     filter (\<lambda>i. i \<in> set (get_due_cards cs clock)) (map (\<lambda>n. str_int (asn n)) networks)
     @ filter (\<lambda>i. i \<in> set (get_new_cards cs (map (\<lambda>n. str_int (asn n)) networks) 10))
         (map (\<lambda>n. str_int (asn n)) networks)"
  by (simp add: load_study_session_def Let_def filter_map comp_def)

lemma session_example_due:
  "get_due_cards
     (DAList.update ''3356'' (new_CardState ''3356'' 200)
       (DAList.update ''174'' (new_CardState ''174'' 100) DAList.empty))
     (\<lambda>_. 1000)
   = [''174'', ''3356'']"
  by (simp add: get_due_cards_def DAList.update.rep_eq DAList.empty.rep_eq is_due_def
      new_CardState_def)

lemma session_example_new:
  "get_new_cards
     (DAList.update ''3356'' (new_CardState ''3356'' 200)
       (DAList.update ''174'' (new_CardState ''174'' 100) DAList.empty))
     (map (\<lambda>n. str_int (asn n)) NETWORKS) 10
   = [''2914'', ''1299'', ''3257'', ''6762'', ''6453'', ''701'', ''7018'', ''3491'', ''5511'',
      ''6830'']"
  unfolding NETWORKS_ids
  by (simp add: get_new_cards_take DAList.lookup_update)

text \<open>
  Claim C7: the candidate list of a study session should be \<^verbatim>\<open>get_due_cards()\<close> followed by
  \<^verbatim>\<open>get_new_cards(all_ids, limit=10)\<close>, each part in the order in which the scheduler
  returns it. \<^verbatim>\<open>_load_study_session\<close> instead filters the catalog by membership in each of
  the two lists. For the catalog of the program and a store in which card 174 became due
  before card 3356, the session shows 3356 before 174, and it shows eleven new cards: the
  catalog has two entries with the number 2914.
\<close>

theorem load_study_session_order:
  "map (\<lambda>n. str_int (asn n))
     (load_study_session
        (DAList.update ''3356'' (new_CardState ''3356'' 200)
          (DAList.update ''174'' (new_CardState ''174'' 100) DAList.empty))
        (\<lambda>_. 1000) NETWORKS)
   = [''3356'', ''174'',
      ''2914'', ''1299'', ''3257'', ''6762'', ''6453'', ''701'', ''7018'', ''3491'', ''5511'',
      ''6830'', ''2914'']
   \<and> get_due_cards
       (DAList.update ''3356'' (new_CardState ''3356'' 200)
         (DAList.update ''174'' (new_CardState ''174'' 100) DAList.empty))
       (\<lambda>_. 1000)
     @ get_new_cards
       (DAList.update ''3356'' (new_CardState ''3356'' 200)
         (DAList.update ''174'' (new_CardState ''174'' 100) DAList.empty))
       (map (\<lambda>n. str_int (asn n)) NETWORKS) 10
   = [''174'', ''3356'',
      ''2914'', ''1299'', ''3257'', ''6762'', ''6453'', ''701'', ''7018'', ''3491'', ''5511'',
      ''6830'']"
  unfolding load_study_session_ids session_example_due session_example_new
  unfolding NETWORKS_ids
  by simp

section \<open>Persistence\<close>

lemma update_fresh: "k \<notin> fst ` set al \<Longrightarrow> AList.update k v al = al @ [(k, v)]"
  by (induction al) auto

lemma foldl_update_fresh:
  "distinct (map fst acc @ map fst xs) \<Longrightarrow>
   foldl (\<lambda>acc (k, v). AList.update k (g k v) acc) acc xs
     = acc @ map (\<lambda>(k, v). (k, g k v)) xs"
proof (induction xs arbitrary: acc)
  case Nil
  show ?case by simp
next
  case (Cons x xs)
  obtain k v where x: "x = (k, v)" by (cases x)
  from Cons.prems have fresh: "k \<notin> fst ` set acc"
    by (auto simp: x)
  from Cons.prems have "distinct (map fst (acc @ [(k, g k v)]) @ map fst xs)"
    by (auto simp: x)
  from Cons.IH[OF this] show ?case
    by (simp add: x update_fresh[OF fresh])
qed

lemma impl_of_foldl_update:
  "DAList.impl_of (foldl (\<lambda>acc (k, v). DAList.update k (g k v) acc) a xs)
     = foldl (\<lambda>acc (k, v). AList.update k (g k v) acc) (DAList.impl_of a) xs"
  by (induction xs arbitrary: a) (auto simp: DAList.update.rep_eq)

lemma from_dict_saved:
  assumes "list_all (\<lambda>t. fromisoformat (isoformat t) = Inr t \<and> isoformat t \<noteq> []) (timestamps st)"
  shows "from_dict fromisoformat
           (AList.update ''card_id'' (JStr k) (AList.delete ''card_id'' (to_dict isoformat st)))
         = Inr (st\<lparr>card_id := k\<rparr>)"
  using assms
  by (cases "last_reviewed st")
    (simp_all add: from_dict_def to_dict_def dict_item_def parse_iso_def as_str_def as_float_def
      as_int_def ebind_def timestamps_def)

lemma load_entries_saved:
  assumes "list_all (\<lambda>t. fromisoformat (isoformat t) = Inr t \<and> isoformat t \<noteq> []) (concat (map (\<lambda>x. timestamps (snd x)) xs))"
  shows "load_entries fromisoformat
           (map (\<lambda>(k, st). (k, JObj (AList.delete ''card_id'' (to_dict isoformat st)))) xs) acc
         = Inr (foldl (\<lambda>acc (k, st). DAList.update k (st\<lparr>card_id := k\<rparr>) acc) acc xs)"
  using assms
proof (induction xs arbitrary: acc)
  case Nil
  show ?case by simp
next
  case (Cons x xs)
  obtain k st where x: "x = (k, st)" by (cases x)
  from Cons.prems have h: "list_all (\<lambda>t. fromisoformat (isoformat t) = Inr t \<and> isoformat t \<noteq> []) (timestamps st)"
    and r: "list_all (\<lambda>t. fromisoformat (isoformat t) = Inr t \<and> isoformat t \<noteq> []) (concat (map (\<lambda>x. timestamps (snd x)) xs))"
    by (simp_all add: x)
  show ?case
    using Cons.IH[OF r] by (simp add: x from_dict_saved[OF h])
qed

lemma save_cards:
  "save cs isoformat now =
     JObj [(''version'', JInt 1),
           (''last_saved'', JStr (isoformat now)),
           (''cards'', JObj (map (\<lambda>(k, st). (k, JObj (AList.delete ''card_id'' (to_dict isoformat st))))
                              (DAList.impl_of cs)))]"
proof -
  have "distinct (map fst [] @ map fst (DAList.impl_of cs))" by simp
  from foldl_update_fresh[OF this, where g = "\<lambda>k st. JObj (AList.delete ''card_id'' (to_dict isoformat st))"]
  show ?thesis
    by (simp add: save_def)
qed

lemma load_save:
  assumes "list_all (\<lambda>t. fromisoformat (isoformat t) = Inr t \<and> isoformat t \<noteq> [])
             (concat (map (\<lambda>x. timestamps (snd x)) (DAList.impl_of cs)))"
  shows "\<exists>cs'. load (Document (save cs isoformat now)) fromisoformat = Inr cs'
           \<and> DAList.impl_of cs' = map (\<lambda>(k, st). (k, st\<lparr>card_id := k\<rparr>)) (DAList.impl_of cs)"
proof -
  let ?cs' = "foldl (\<lambda>acc (k, st). DAList.update k (st\<lparr>card_id := k\<rparr>) acc) DAList.empty (DAList.impl_of cs)"
  have l: "load (Document (save cs isoformat now)) fromisoformat = Inr ?cs'"
    by (simp add: save_cards load_def load_entries_saved[OF assms])
  have "distinct (map fst [] @ map fst (DAList.impl_of cs))" by simp
  from foldl_update_fresh[OF this, where g = "\<lambda>k st. st\<lparr>card_id := k\<rparr>"]
  have "DAList.impl_of ?cs' = map (\<lambda>(k, st). (k, st\<lparr>card_id := k\<rparr>)) (DAList.impl_of cs)"
    by (simp add: impl_of_foldl_update DAList.empty.rep_eq)
  with l show ?thesis by blast
qed


text \<open>
  Claim C8, as amended. Let the ISO format of every timestamp in the store parse back to
  that timestamp (and be a non-empty string). Then saving the store and loading the saved
  document gives a store with the same keys, in the same order, in which every entry has
  the ease factor, interval, repetitions and timestamps that it had, and has as
  \<open>card_id\<close> the key under which it was stored. The loaded store is the saved one when every
  entry was stored under its own \<open>card_id\<close>.
\<close>

theorem save_load_roundtrip:
  assumes "list_all (\<lambda>t. fromisoformat (isoformat t) = Inr t \<and> isoformat t \<noteq> [])
             (concat (map (\<lambda>x. timestamps (snd x)) (DAList.impl_of cs)))"
  shows "\<exists>cs'. load (Document (save cs isoformat now)) fromisoformat = Inr cs'
           \<and> map fst (DAList.impl_of cs') = map fst (DAList.impl_of cs)
           \<and> list_all (\<lambda>(k, st). DAList.lookup cs' k = Some (st\<lparr>card_id := k\<rparr>)) (DAList.impl_of cs)
           \<and> (list_all (\<lambda>(k, st). card_id st = k) (DAList.impl_of cs) \<longrightarrow> cs' = cs)"
proof -
  from load_save[OF assms, of now]
  obtain cs' where l: "load (Document (save cs isoformat now)) fromisoformat = Inr cs'"
    and i: "DAList.impl_of cs' = map (\<lambda>(k, st). (k, st\<lparr>card_id := k\<rparr>)) (DAList.impl_of cs)"
    by blast
  have keys: "map fst (DAList.impl_of cs') = map fst (DAList.impl_of cs)"
    by (simp add: i case_prod_unfold comp_def)
  have entries: "list_all (\<lambda>(k, st). DAList.lookup cs' k = Some (st\<lparr>card_id := k\<rparr>)) (DAList.impl_of cs)"
    unfolding list_all_iff
  proof (intro ballI)
    fix x
    assume x: "x \<in> set (DAList.impl_of cs)"
    obtain k st where p: "x = (k, st)" by (cases x)
    from x have "(k, st\<lparr>card_id := k\<rparr>) \<in> set (DAList.impl_of cs')"
      by (force simp: i p)
    then have "DAList.lookup cs' k = Some (st\<lparr>card_id := k\<rparr>)"
      by (simp add: DAList.lookup.rep_eq)
    then show "case x of (k, st) \<Rightarrow> DAList.lookup cs' k = Some (st\<lparr>card_id := k\<rparr>)"
      by (simp add: p)
  qed
  have same: "cs' = cs" if "list_all (\<lambda>(k, st). card_id st = k) (DAList.impl_of cs)"
  proof -
    from that have "map (\<lambda>(k, st). (k, st\<lparr>card_id := k\<rparr>)) (DAList.impl_of cs) = DAList.impl_of cs"
      by (intro map_idI) (auto simp: list_all_iff)
    with i show ?thesis by (simp add: alist_eq_iff)
  qed
  from l keys entries same show ?thesis by blast
qed

text \<open>
  The saved entry does not hold the \<open>card_id\<close> field: a state with \<open>card_id\<close> \<open>b\<close> stored
  under the key \<open>a\<close> is loaded with \<open>card_id\<close> \<open>a\<close>.
\<close>

theorem save_load_card_id_counterexample:
  "load (Document (save (DAList.update ''a'' (new_CardState ''b'' 0) DAList.empty)
                    example_isoformat 1))
     example_fromisoformat
   = Inr (DAList.update ''a'' (new_CardState ''a'' 0) DAList.empty)"
proof -
  have "list_all (\<lambda>t. example_fromisoformat (example_isoformat t) = Inr t \<and> example_isoformat t \<noteq> [])
          (concat (map (\<lambda>x. timestamps (snd x))
             (DAList.impl_of (DAList.update ''a'' (new_CardState ''b'' 0) DAList.empty))))"
    by (simp add: DAList.update.rep_eq DAList.empty.rep_eq timestamps_def new_CardState_def
        example_isoformat_def example_fromisoformat_def)
  from load_save[OF this, of 1]
  show ?thesis
    by (auto simp: alist_eq_iff DAList.update.rep_eq DAList.empty.rep_eq new_CardState_def)
qed

theorem save_load_roundtrip_witness:
  "list_all (\<lambda>t. example_fromisoformat (example_isoformat t) = Inr t \<and> example_isoformat t \<noteq> [])
     (concat (map (\<lambda>x. timestamps (snd x))
        (DAList.impl_of
           (DAList.update ''b'' ((new_CardState ''b'' 1)\<lparr>last_reviewed := Some 0\<rparr>)
             (DAList.update ''a'' (new_CardState ''a'' 0) DAList.empty)))))
   \<and> load (Document
         (save (DAList.update ''b'' ((new_CardState ''b'' 1)\<lparr>last_reviewed := Some 0\<rparr>)
                 (DAList.update ''a'' (new_CardState ''a'' 0) DAList.empty))
            example_isoformat 1))
       example_fromisoformat
     = Inr (DAList.update ''b'' ((new_CardState ''b'' 1)\<lparr>last_reviewed := Some 0\<rparr>)
             (DAList.update ''a'' (new_CardState ''a'' 0) DAList.empty))"
proof -
  have h: "list_all (\<lambda>t. example_fromisoformat (example_isoformat t) = Inr t \<and> example_isoformat t \<noteq> [])
     (concat (map (\<lambda>x. timestamps (snd x))
        (DAList.impl_of
           (DAList.update ''b'' ((new_CardState ''b'' 1)\<lparr>last_reviewed := Some 0\<rparr>)
             (DAList.update ''a'' (new_CardState ''a'' 0) DAList.empty)))))"
    by (simp add: DAList.update.rep_eq DAList.empty.rep_eq timestamps_def new_CardState_def
        example_isoformat_def example_fromisoformat_def)
  have k: "list_all (\<lambda>(k, st). card_id st = k)
     (DAList.impl_of
        (DAList.update ''b'' ((new_CardState ''b'' 1)\<lparr>last_reviewed := Some 0\<rparr>)
          (DAList.update ''a'' (new_CardState ''a'' 0) DAList.empty)))"
    by (simp add: DAList.update.rep_eq DAList.empty.rep_eq new_CardState_def)
  from save_load_roundtrip[OF h, of 1] k h
  show ?thesis by auto
qed

end
